theory Spec2Isabelle
  imports Complex_Main
begin

section \<open>Conventions of the embedding\<close>

text \<open>
  The two numerical cores of the repository are embedded: the spectrum pipeline of
  \<^verbatim>\<open>sdrbase/dsp/spectrumvis.cpp\<close> and the CIC compensation filter design of
  \<^verbatim>\<open>wdsp/icfir.cpp\<close>.

  \<^item> C++ \<^verbatim>\<open>int\<close> values are HOL integers; every index and size that occurs stays far
    below the 32-bit range under the bounds the code enforces (FFT sizes are at most 4096).
    The one place where the source relies on unsigned wrap-around
    (\<^verbatim>\<open>std::size_t samplesNeeded = m_refillSize - m_fftBufferFill\<close>) has the
    reduction modulo \<open>2 ^ 64\<close> written out.
  \<^item> \<^verbatim>\<open>float\<close> and \<^verbatim>\<open>double\<close> values are real numbers; infinities and NaN are not
    represented, and theorems whose statement would otherwise depend on a division by zero
    or on the logarithm of zero carry hypotheses that exclude it. In the spectrum pipeline
    the arithmetic is exact. In the filter design, where the sample counts are truncations
    of \<^verbatim>\<open>float\<close> products, every \<^verbatim>\<open>float\<close> result is rounded to 24 significant bits
    and only the arithmetic in \<^verbatim>\<open>double\<close> is exact.
  \<^item> Calls into collaborators whose code is elsewhere (FFT factory and engine, window,
    averaging accumulators, display and network sinks) are recorded in a trace of calls
    kept in the state; what they compute is taken as a parameter.
\<close>

section \<open>Spectrum pipeline: data model\<close>

definition MAX_FFT_SIZE :: int where
  "MAX_FFT_SIZE = 4096"

datatype AveragingMode = AvgModeNone | AvgModeMoving | AvgModeFixed | AvgModeMax

text \<open>
  \<^verbatim>\<open>GLSpectrumSettings\<close>: the fields that \<^verbatim>\<open>SpectrumVis\<close> reads. The display-only
  fields (decay, histogram stroke, grid and trace intensities, waterfall flags) are never
  inspected by the pipeline; they live in the extension slot of the record and are copied
  along by the assignment \<^verbatim>\<open>m_settings = settings\<close>.
\<close>

record GLSpectrumSettings =
  m_fftSize :: int
  m_fftOverlap :: int
  m_fftWindow :: int
  m_refLevel :: real
  m_powerRange :: real
  m_averagingIndex :: int
  m_averagingMode :: AveragingMode
  m_linear :: bool
  m_ssb :: bool
  m_usb :: bool
  m_wsSpectrumAddress :: string
  m_wsSpectrumPort :: int

text \<open>The web socket spectrum server, as far as the pipeline drives it.\<close>

record WSSpectrum =
  listeningAddress :: string
  port :: int
  socketOpened :: bool

text \<open>Calls that leave the class, in the order they are issued.\<close>

datatype call =
    ReleaseEngine int bool nat
  | GetEngine int bool
  | WindowCreate int int
  | MovingAverageResize int nat
  | FixedAverageResize int nat
  | MaxResize int nat
  | SetListeningAddress string
  | SetPort int
  | CloseSocket
  | OpenSocket
  | GLNewSpectrum "real list" int
  | WSNewSpectrum "real list" int int int bool bool bool

text \<open>
  The collaborators. \<open>'m\<close>, \<open>'f\<close> and \<open>'x\<close> are the states of the moving average, the
  fixed average and the max hold accumulators. \<open>getEngine\<close> answers with the sequence
  number and the engine handle (\<open>None\<close> is the null pointer); \<open>transform\<close> is the forward
  transform of an engine from its input to its output buffer; \<open>windowCoefficients\<close> are
  the coefficients \<^verbatim>\<open>FFTWindow::create\<close> stores. A store operation of the fixed average
  or of max hold answers \<open>Some v\<close> when it returns true with \<open>v\<close> in its output argument.
\<close>

record ('m, 'f, 'x) collaborators =
  getAveragingValue :: "int \<Rightarrow> AveragingMode \<Rightarrow> nat"
  getEngine :: "int \<Rightarrow> bool \<Rightarrow> nat \<times> nat option"
  transform :: "nat \<Rightarrow> complex list \<Rightarrow> complex list"
  windowCoefficients :: "int \<Rightarrow> int \<Rightarrow> real list"
  movingResize :: "int \<Rightarrow> nat \<Rightarrow> 'm \<Rightarrow> 'm"
  movingStoreAndGetAvg :: "real \<Rightarrow> nat \<Rightarrow> 'm \<Rightarrow> real \<times> 'm"
  movingNextAverage :: "'m \<Rightarrow> 'm"
  fixedResize :: "int \<Rightarrow> nat \<Rightarrow> 'f \<Rightarrow> 'f"
  fixedStoreAndGetAvg :: "real \<Rightarrow> nat \<Rightarrow> 'f \<Rightarrow> real option \<times> 'f"
  fixedNextAverage :: "'f \<Rightarrow> bool \<times> 'f"
  maxResize :: "int \<Rightarrow> nat \<Rightarrow> 'x \<Rightarrow> 'x"
  maxStoreAndGetMax :: "real \<Rightarrow> nat \<Rightarrow> 'x \<Rightarrow> real option \<times> 'x"
  maxNextMax :: "'x \<Rightarrow> bool \<times> 'x"

text \<open>
  The members of \<^verbatim>\<open>SpectrumVis\<close>. \<open>m_glSpectrum\<close> says whether a display sink is
  attached, \<open>m_mutex\<close> whether the configuration lock is held by another thread at the
  moment of a call, \<open>calls\<close> is the trace.
\<close>

record ('m, 'f, 'x) SpectrumVis =
  m_running :: bool
  m_fft :: "nat option"
  m_fftEngineSequence :: nat
  m_window :: "real list"
  m_fftBuffer :: "complex list"
  m_powerSpectrum :: "real list"
  m_settings :: GLSpectrumSettings
  m_overlapSize :: int
  m_refillSize :: int
  m_fftBufferFill :: int
  m_needMoreSamples :: bool
  m_scalef :: real
  m_glSpectrum :: bool
  m_wsSpectrum :: WSSpectrum
  m_movingAverage :: 'm
  m_fixedAverage :: 'f
  m_max :: 'x
  m_centerFrequency :: int
  m_sampleRate :: int
  m_ofs :: real
  m_powFFTDiv :: real
  m_mutex :: bool
  calls :: "call list"

section \<open>Spectrum pipeline: configuration\<close>

definition emit :: "call \<Rightarrow> ('m, 'f, 'x) SpectrumVis \<Rightarrow> ('m, 'f, 'x) SpectrumVis" where
  "emit c s = s\<lparr>calls := calls s @ [c]\<rparr>"

text \<open>\<^verbatim>\<open>SpectrumVis::handleConfigureWSSpectrum\<close>\<close>

definition handleConfigureWSSpectrum ::
  "string \<Rightarrow> int \<Rightarrow> ('m, 'f, 'x) SpectrumVis \<Rightarrow> ('m, 'f, 'x) SpectrumVis" where
  "handleConfigureWSSpectrum address prt s =
     (let s1 = emit (SetListeningAddress address)
                 (s\<lparr>m_wsSpectrum := (m_wsSpectrum s)\<lparr>listeningAddress := address\<rparr>\<rparr>);
          s2 = emit (SetPort prt) (s1\<lparr>m_wsSpectrum := (m_wsSpectrum s1)\<lparr>port := prt\<rparr>\<rparr>)
      in if socketOpened (m_wsSpectrum s2)
         then emit OpenSocket (emit CloseSocket s2)
         else s2)"

text \<open>
  The blocks of \<^verbatim>\<open>SpectrumVis::applySettings\<close>, one definition for the body of each
  \<^verbatim>\<open>if\<close>. First the transform engine: the previous allocation is released if there is
  one, a new engine is acquired for the clamped size, and the display offset and the
  linear divisor are recomputed.
\<close>

definition acquireEngine ::
  "('m, 'f, 'x) collaborators \<Rightarrow> int \<Rightarrow> ('m, 'f, 'x) SpectrumVis \<Rightarrow> ('m, 'f, 'x) SpectrumVis" where
  "acquireEngine E fftSize s =
     (let r = (if m_fft s \<noteq> None
               then emit (ReleaseEngine (m_fftSize (m_settings s)) False (m_fftEngineSequence s)) s
               else s);
          g = getEngine E fftSize False
      in (emit (GetEngine fftSize False) r)
           \<lparr>m_fftEngineSequence := fst g,
            m_fft := snd g,
            m_ofs := 20 * log 10 (1 / real_of_int fftSize),
            m_powFFTDiv := real_of_int (fftSize * fftSize)\<rparr>)"

text \<open>\<^verbatim>\<open>m_window.create(settings.m_fftWindow, fftSize)\<close>\<close>

definition createWindow ::
  "('m, 'f, 'x) collaborators \<Rightarrow> int \<Rightarrow> int \<Rightarrow> ('m, 'f, 'x) SpectrumVis \<Rightarrow>
   ('m, 'f, 'x) SpectrumVis" where
  "createWindow E function fftSize s =
     (emit (WindowCreate function fftSize) s)\<lparr>m_window := windowCoefficients E function fftSize\<rparr>"

text \<open>The overlap size, the refill size and the restart of the staging buffer.\<close>

definition setOverlap ::
  "int \<Rightarrow> int \<Rightarrow> ('m, 'f, 'x) SpectrumVis \<Rightarrow> ('m, 'f, 'x) SpectrumVis" where
  "setOverlap fftSize overlapPercent s =
     (let overlapSize = (fftSize * overlapPercent) div 100
      in s\<lparr>m_overlapSize := overlapSize,
            m_refillSize := fftSize - overlapSize,
            m_fftBufferFill := overlapSize\<rparr>)"

text \<open>
  The three accumulators are resized; the depth of the moving average is capped at 1000,
  which the source does to avoid running out of memory.
\<close>

definition resizeAverages ::
  "('m, 'f, 'x) collaborators \<Rightarrow> int \<Rightarrow> int \<Rightarrow> AveragingMode \<Rightarrow> ('m, 'f, 'x) SpectrumVis \<Rightarrow>
   ('m, 'f, 'x) SpectrumVis" where
  "resizeAverages E fftSize averagingIndex mode s =
     (let averagingValue = getAveragingValue E averagingIndex mode;
          capped = (if averagingValue > 1000 then 1000 else averagingValue)
      in (emit (MaxResize fftSize averagingValue)
           (emit (FixedAverageResize fftSize averagingValue)
             (emit (MovingAverageResize fftSize capped) s)))
           \<lparr>m_movingAverage := movingResize E fftSize capped (m_movingAverage s),
            m_fixedAverage := fixedResize E fftSize averagingValue (m_fixedAverage s),
            m_max := maxResize E fftSize averagingValue (m_max s)\<rparr>)"

text \<open>
  \<^verbatim>\<open>SpectrumVis::applySettings\<close>. The lock taken by the \<^verbatim>\<open>QMutexLocker\<close> is released
  on return, so \<open>m_mutex\<close> is as before. Every block compares against \<open>m_settings\<close> as it
  was on entry (\<open>old\<close>); the member is overwritten in the last three statements only.
\<close>

definition applySettings ::
  "('m, 'f, 'x) collaborators \<Rightarrow> GLSpectrumSettings \<Rightarrow> bool \<Rightarrow>
   ('m, 'f, 'x) SpectrumVis \<Rightarrow> ('m, 'f, 'x) SpectrumVis" where
  "applySettings E settings force s =
     (let fftSize =
            (if m_fftSize settings > MAX_FFT_SIZE then MAX_FFT_SIZE
             else if m_fftSize settings < 64 then 64
             else m_fftSize settings);
          overlapPercent =
            (if m_fftOverlap settings > 100 then 100
             else if m_fftOverlap settings < 0 then 0
             else m_fftOverlap settings);
          old = m_settings s;
          s1 = (if fftSize \<noteq> m_fftSize old \<or> force
                then acquireEngine E fftSize s else s);
          s2 = (if fftSize \<noteq> m_fftSize old \<or> m_fftWindow settings \<noteq> m_fftWindow old \<or> force
                then createWindow E (m_fftWindow settings) fftSize s1 else s1);
          s3 = (if fftSize \<noteq> m_fftSize old \<or> overlapPercent \<noteq> m_fftOverlap old \<or> force
                then setOverlap fftSize overlapPercent s2 else s2);
          s4 = (if fftSize \<noteq> m_fftSize old
                   \<or> m_averagingIndex settings \<noteq> m_averagingIndex old
                   \<or> m_averagingMode settings \<noteq> m_averagingMode old \<or> force
                then resizeAverages E fftSize (m_averagingIndex settings) (m_averagingMode settings) s3
                else s3);
          s5 = (if m_wsSpectrumAddress settings \<noteq> m_wsSpectrumAddress old
                   \<or> m_wsSpectrumPort settings \<noteq> m_wsSpectrumPort old \<or> force
                then handleConfigureWSSpectrum
                       (m_wsSpectrumAddress settings) (m_wsSpectrumPort settings) s4
                else s4)
      in s5\<lparr>m_settings := settings\<lparr>m_fftSize := fftSize, m_fftOverlap := overlapPercent\<rparr>\<rparr>)"

text \<open>
  The settings-read path, \<^verbatim>\<open>webapiSpectrumSettingsGet\<close>: the response is formatted
  from \<open>m_settings\<close> by \<^verbatim>\<open>webapiFormatSpectrumSettings\<close> and the status is 200.
\<close>

record SWGGLSpectrum =
  fftSize :: int
  fftOverlap :: int
  fftWindow :: int
  refLevel :: real
  powerRange :: real
  averagingMode :: AveragingMode
  averagingValue :: nat
  linear :: int
  ssb :: int
  usb :: int
  wsSpectrumPort :: int
  wsSpectrumAddress :: string

definition webapiFormatSpectrumSettings ::
  "('m, 'f, 'x) collaborators \<Rightarrow> GLSpectrumSettings \<Rightarrow> SWGGLSpectrum" where
  "webapiFormatSpectrumSettings E settings =
     \<lparr>fftSize = m_fftSize settings,
      fftOverlap = m_fftOverlap settings,
      fftWindow = m_fftWindow settings,
      refLevel = m_refLevel settings,
      powerRange = m_powerRange settings,
      averagingMode = m_averagingMode settings,
      averagingValue = getAveragingValue E (m_averagingIndex settings) (m_averagingMode settings),
      linear = (if m_linear settings then 1 else 0),
      ssb = (if m_ssb settings then 1 else 0),
      usb = (if m_usb settings then 1 else 0),
      wsSpectrumPort = m_wsSpectrumPort settings,
      wsSpectrumAddress = m_wsSpectrumAddress settings\<rparr>"

definition webapiSpectrumSettingsGet ::
  "('m, 'f, 'x) collaborators \<Rightarrow> ('m, 'f, 'x) SpectrumVis \<Rightarrow> int \<times> SWGGLSpectrum" where
  "webapiSpectrumSettingsGet E s = (200, webapiFormatSpectrumSettings E (m_settings s))"

section \<open>Spectrum pipeline: power extraction and publication\<close>

datatype error = NullEngine | BufferOverrun

datatype Sample = Sample (m_real: int) (m_imag: int)

definition m_mult :: real where
  "m_mult = 10 / log 2 10"

text \<open>\<^verbatim>\<open>v = c.real() * c.real() + c.imag() * c.imag()\<close>\<close>

definition magsq :: "complex \<Rightarrow> real" where
  "magsq c = Re c * Re c + Im c * Im c"

text \<open>
  \<^verbatim>\<open>m_settings.m_linear ? v/m_powFFTDiv : m_mult * log2f(v) + m_ofs\<close>. For \<open>v = 0\<close> the
  source has \<^verbatim>\<open>log2f (0)\<close>, minus infinity, which has no counterpart here: the value
  of \<open>log 2 0\<close> is not meant, and statements about the logarithmic display assume \<open>0 < v\<close>.
\<close>

definition toDisplay :: "('m, 'f, 'x) SpectrumVis \<Rightarrow> real \<Rightarrow> real" where
  "toDisplay s v =
     (if m_linear (m_settings s) then v / m_powFFTDiv s else m_mult * log 2 v + m_ofs s)"

text \<open>
  What the four branches of the averaging mode do with the power \<open>v\<close> of bin \<open>idx\<close>
  before it is converted and written: nothing (\<^verbatim>\<open>AvgModeNone\<close>), the moving average
  (always a value), the fixed average or max hold (a value when a result is available).
\<close>

definition storeBin ::
  "('m, 'f, 'x) collaborators \<Rightarrow> real \<Rightarrow> nat \<Rightarrow> ('m, 'f, 'x) SpectrumVis \<Rightarrow>
   real option \<times> ('m, 'f, 'x) SpectrumVis" where
  "storeBin E v idx s =
     (case m_averagingMode (m_settings s) of
        AvgModeNone \<Rightarrow> (Some v, s)
      | AvgModeMoving \<Rightarrow>
          (let r = movingStoreAndGetAvg E v idx (m_movingAverage s)
           in (Some (fst r), s\<lparr>m_movingAverage := snd r\<rparr>))
      | AvgModeFixed \<Rightarrow>
          (let r = fixedStoreAndGetAvg E v idx (m_fixedAverage s)
           in (fst r, s\<lparr>m_fixedAverage := snd r\<rparr>))
      | AvgModeMax \<Rightarrow>
          (let r = maxStoreAndGetMax E v idx (m_max s)
           in (fst r, s\<lparr>m_max := snd r\<rparr>)))"

text \<open>The body of the loop over \<open>i < halfSize\<close> when \<open>positiveOnly\<close> is set.\<close>

definition binPositiveOnly ::
  "('m, 'f, 'x) collaborators \<Rightarrow> complex list \<Rightarrow> nat \<Rightarrow> ('m, 'f, 'x) SpectrumVis \<Rightarrow>
   ('m, 'f, 'x) SpectrumVis" where
  "binPositiveOnly E fftOut i s =
     (let r = storeBin E (magsq (fftOut ! i)) i s;
          s1 = snd r
      in case fst r of
           None \<Rightarrow> s1
         | Some a \<Rightarrow>
             s1\<lparr>m_powerSpectrum :=
                  (m_powerSpectrum s1)[i * 2 := toDisplay s1 a, i * 2 + 1 := toDisplay s1 a]\<rparr>)"

text \<open>The body of the loop over \<open>i < halfSize\<close> when \<open>positiveOnly\<close> is clear.\<close>

definition binShifted ::
  "('m, 'f, 'x) collaborators \<Rightarrow> complex list \<Rightarrow> nat \<Rightarrow> nat \<Rightarrow> ('m, 'f, 'x) SpectrumVis \<Rightarrow>
   ('m, 'f, 'x) SpectrumVis" where
  "binShifted E fftOut halfSize i s =
     (let r1 = storeBin E (magsq (fftOut ! (i + halfSize))) (i + halfSize) s;
          s1 = snd r1;
          s2 = (case fst r1 of
                  None \<Rightarrow> s1
                | Some a \<Rightarrow> s1\<lparr>m_powerSpectrum := (m_powerSpectrum s1)[i := toDisplay s1 a]\<rparr>);
          r2 = storeBin E (magsq (fftOut ! i)) i s2;
          s3 = snd r2
      in case fst r2 of
           None \<Rightarrow> s3
         | Some a \<Rightarrow>
             s3\<lparr>m_powerSpectrum := (m_powerSpectrum s3)[i + halfSize := toDisplay s3 a]\<rparr>)"

text \<open>Send the power spectrum to the display sink and to the web socket server.\<close>

definition publish :: "('m, 'f, 'x) SpectrumVis \<Rightarrow> ('m, 'f, 'x) SpectrumVis" where
  "publish s =
     (let s1 = (if m_glSpectrum s
                then emit (GLNewSpectrum (m_powerSpectrum s) (m_fftSize (m_settings s))) s
                else s)
      in if socketOpened (m_wsSpectrum s1)
         then emit (WSNewSpectrum (m_powerSpectrum s1) (m_fftSize (m_settings s1))
                      (m_centerFrequency s1) (m_sampleRate s1)
                      (m_linear (m_settings s1)) (m_ssb (m_settings s1)) (m_usb (m_settings s1))) s1
         else s1)"

text \<open>
  The tail of each averaging branch: always publish (none), publish and advance the moving
  average, or publish when the fixed average or max hold reports a completed result.
\<close>

definition publishByMode ::
  "('m, 'f, 'x) collaborators \<Rightarrow> ('m, 'f, 'x) SpectrumVis \<Rightarrow> ('m, 'f, 'x) SpectrumVis" where
  "publishByMode E s =
     (case m_averagingMode (m_settings s) of
        AvgModeNone \<Rightarrow> publish s
      | AvgModeMoving \<Rightarrow>
          (let s1 = publish s in s1\<lparr>m_movingAverage := movingNextAverage E (m_movingAverage s1)\<rparr>)
      | AvgModeFixed \<Rightarrow>
          (let r = fixedNextAverage E (m_fixedAverage s);
               s1 = s\<lparr>m_fixedAverage := snd r\<rparr>
           in if fst r then publish s1 else s1)
      | AvgModeMax \<Rightarrow>
          (let r = maxNextMax E (m_max s);
               s1 = s\<lparr>m_max := snd r\<rparr>
           in if fst r then publish s1 else s1))"

section \<open>Spectrum pipeline: the per-bin feed\<close>

text \<open>
  \<^verbatim>\<open>SpectrumVis::feed(const Complex *begin, unsigned int length)\<close>. The pointer and its
  length are the list \<open>bins\<close>. The body of the loop over \<open>i < m_fftSize\<close>:
\<close>

definition binDirect ::
  "('m, 'f, 'x) collaborators \<Rightarrow> complex list \<Rightarrow> nat \<Rightarrow> ('m, 'f, 'x) SpectrumVis \<Rightarrow>
   ('m, 'f, 'x) SpectrumVis" where
  "binDirect E bins i s =
     (let c = (if i < length bins then bins ! i else Complex 0 0);
          r = storeBin E (magsq c) i s;
          s1 = snd r
      in case fst r of
           None \<Rightarrow> s1
         | Some a \<Rightarrow> s1\<lparr>m_powerSpectrum := (m_powerSpectrum s1)[i := toDisplay s1 a]\<rparr>)"

definition feed_complex ::
  "('m, 'f, 'x) collaborators \<Rightarrow> complex list \<Rightarrow> ('m, 'f, 'x) SpectrumVis \<Rightarrow>
   ('m, 'f, 'x) SpectrumVis" where
  "feed_complex E bins s =
     (if \<not> m_glSpectrum s \<and> \<not> socketOpened (m_wsSpectrum s) then s
      else if m_mutex s then s
      else publishByMode E (fold (binDirect E bins) [0..<nat (m_fftSize (m_settings s))] s))"

section \<open>Spectrum pipeline: the streaming feed\<close>

text \<open>
  Modelled from the spec: \<^verbatim>\<open>FFTWindow::apply\<close> (its class is not among the sources) is
  the element-wise product of the window coefficients with the input samples.
\<close>

definition FFTWindow_apply :: "real list \<Rightarrow> complex list \<Rightarrow> complex list" where
  "FFTWindow_apply w input = map2 (\<lambda>k c. complex_of_real k * c) w input"

text \<open>\<^verbatim>\<open>*it++ = Complex(begin->real() / m_scalef, begin->imag() / m_scalef)\<close>\<close>

fun fillBuffer :: "real \<Rightarrow> Sample list \<Rightarrow> nat \<Rightarrow> complex list \<Rightarrow> complex list" where
  "fillBuffer scalef [] it buf = buf"
| "fillBuffer scalef (x # xs) it buf =
     fillBuffer scalef xs (Suc it)
       (buf[it := Complex (real_of_int (m_real x) / scalef) (real_of_int (m_imag x) / scalef)])"

text \<open>
  Writing \<open>xs\<close> into the staging buffer from \<open>m_fftBufferFill\<close> on; a write outside the
  vector is undefined behaviour in the source and an error here.
\<close>

definition stage ::
  "Sample list \<Rightarrow> ('m, 'f, 'x) SpectrumVis \<Rightarrow> error + ('m, 'f, 'x) SpectrumVis" where
  "stage xs s =
     (if 0 \<le> m_fftBufferFill s
         \<and> m_fftBufferFill s + int (length xs) \<le> int (length (m_fftBuffer s))
      then Inr (s\<lparr>m_fftBuffer :=
                    fillBuffer (m_scalef s) xs (nat (m_fftBufferFill s)) (m_fftBuffer s)\<rparr>)
      else Inl BufferOverrun)"

text \<open>
  \<^verbatim>\<open>std::copy(m_fftBuffer.begin() + m_refillSize, m_fftBuffer.end(), m_fftBuffer.begin())\<close>:
  the elements from \<open>m_refillSize\<close> on move to the front, the rest of the vector keeps
  its contents.
\<close>

definition advance :: "nat \<Rightarrow> complex list \<Rightarrow> complex list" where
  "advance r buf = drop r buf @ drop (length buf - r) buf"

text \<open>
  The branch \<^verbatim>\<open>todo >= samplesNeeded\<close> after the buffer has been filled: window,
  transform, power extraction in the order the flag selects, publication, and the
  restart of the staging buffer.
\<close>

definition processFrame ::
  "('m, 'f, 'x) collaborators \<Rightarrow> bool \<Rightarrow> ('m, 'f, 'x) SpectrumVis \<Rightarrow>
   error + ('m, 'f, 'x) SpectrumVis" where
  "processFrame E positiveOnly s =
     (case m_fft s of
        None \<Rightarrow> Inl NullEngine
      | Some engine \<Rightarrow>
          (let fftOut = transform E engine (FFTWindow_apply (m_window s) (m_fftBuffer s));
               halfSize = nat (m_fftSize (m_settings s) div 2);
               s1 = (if positiveOnly
                     then fold (binPositiveOnly E fftOut) [0..<halfSize] s
                     else fold (binShifted E fftOut halfSize) [0..<halfSize] s);
               s2 = publishByMode E s1
           in if 0 \<le> m_refillSize s2 \<and> m_refillSize s2 \<le> int (length (m_fftBuffer s2))
              then Inr (s2\<lparr>m_fftBuffer := advance (nat (m_refillSize s2)) (m_fftBuffer s2),
                           m_fftBufferFill := m_overlapSize s2,
                           m_needMoreSamples := False\<rparr>)
              else Inl BufferOverrun))"

text \<open>
  \<^verbatim>\<open>std::size_t samplesNeeded = m_refillSize - m_fftBufferFill\<close>: the difference is
  converted to an unsigned 64-bit value, hence the reduction modulo \<open>2 ^ 64\<close>.
\<close>

definition samplesNeeded :: "('m, 'f, 'x) SpectrumVis \<Rightarrow> nat" where
  "samplesNeeded s = nat ((m_refillSize s - m_fftBufferFill s) mod 2 ^ 64)"

text \<open>
  The loop \<^verbatim>\<open>while (begin < end)\<close>; \<open>xs\<close> are the samples from \<open>begin\<close> to \<open>end\<close> and
  \<open>length xs\<close> is \<open>todo\<close>. When no sample is needed the iteration consumes none, so the
  loop need not end: \<open>None\<close> is the run that does not return.
\<close>

partial_function (option) feedLoop ::
  "('m, 'f, 'x) collaborators \<Rightarrow> bool \<Rightarrow> Sample list \<Rightarrow> ('m, 'f, 'x) SpectrumVis \<Rightarrow>
   (error + ('m, 'f, 'x) SpectrumVis) option" where
  "feedLoop E positiveOnly xs s =
     (if xs = [] then Some (Inr s)
      else if samplesNeeded s \<le> length xs then
        (case stage (take (samplesNeeded s) xs) s of
           Inl e \<Rightarrow> Some (Inl e)
         | Inr s1 \<Rightarrow>
             (case processFrame E positiveOnly s1 of
                Inl e \<Rightarrow> Some (Inl e)
              | Inr s2 \<Rightarrow> feedLoop E positiveOnly (drop (samplesNeeded s) xs) s2))
      else
        (case stage xs s of
           Inl e \<Rightarrow> Some (Inl e)
         | Inr s1 \<Rightarrow>
             Some (Inr (s1\<lparr>m_fftBufferFill := m_fftBufferFill s1 + int (length xs),
                            m_needMoreSamples := True\<rparr>))))"

text \<open>
  \<^verbatim>\<open>SpectrumVis::feed(cbegin, end, positiveOnly)\<close>: the three early returns, then the
  loop. The lock taken by \<^verbatim>\<open>tryLock\<close> is given back before returning.
\<close>

definition feed ::
  "('m, 'f, 'x) collaborators \<Rightarrow> Sample list \<Rightarrow> bool \<Rightarrow> ('m, 'f, 'x) SpectrumVis \<Rightarrow>
   (error + ('m, 'f, 'x) SpectrumVis) option" where
  "feed E samples positiveOnly s =
     (if \<not> m_running s then Some (Inr s)
      else if \<not> m_glSpectrum s \<and> \<not> socketOpened (m_wsSpectrum s) then Some (Inr s)
      else if m_mutex s then Some (Inr s)
      else feedLoop E positiveOnly samples s)"

definition start :: "('m, 'f, 'x) SpectrumVis \<Rightarrow> ('m, 'f, 'x) SpectrumVis" where
  "start s = s\<lparr>m_running := True\<rparr>"

definition stop :: "('m, 'f, 'x) SpectrumVis \<Rightarrow> ('m, 'f, 'x) SpectrumVis" where
  "stop s = s\<lparr>m_running := False\<rparr>"

text \<open>The frames handed to the display sink so far, oldest first.\<close>

fun displayFrames :: "call list \<Rightarrow> (real list \<times> int) list" where
  "displayFrames [] = []"
| "displayFrames (GLNewSpectrum ps n # cs) = (ps, n) # displayFrames cs"
| "displayFrames (c # cs) = displayFrames cs"

text \<open>The power spectrum after the extraction loop of a frame without averaging, as a fold
  over the vector alone (used to state what the loop writes).\<close>

definition extracted ::
  "('m, 'f, 'x) SpectrumVis \<Rightarrow> complex list \<Rightarrow> bool \<Rightarrow> real list" where
  "extracted s fftOut positiveOnly =
     (if positiveOnly
      then fold (\<lambda>i ps. ps[i * 2 := toDisplay s (magsq (fftOut ! i)),
                           i * 2 + 1 := toDisplay s (magsq (fftOut ! i))])
             [0..<nat (m_fftSize (m_settings s) div 2)] (m_powerSpectrum s)
      else fold (\<lambda>i ps. ps[i := toDisplay s (magsq (fftOut ! (i + nat (m_fftSize (m_settings s) div 2)))),
                           i + nat (m_fftSize (m_settings s) div 2) := toDisplay s (magsq (fftOut ! i))])
             [0..<nat (m_fftSize (m_settings s) div 2)] (m_powerSpectrum s))"

section \<open>CIC compensation filter: synthesis of the impulse response\<close>

text \<open>
  \<^verbatim>\<open>ICFIR::icfir_impulse\<close> of \<^verbatim>\<open>wdsp/icfir.cpp\<close>. A \<^verbatim>\<open>std::vector\<close> constructed with
  a negative size throws; that is the only way the function fails.
\<close>

datatype icfir_error = LengthError

text \<open>
  The function computes in \<^verbatim>\<open>float\<close> and in \<^verbatim>\<open>double\<close>. A \<^verbatim>\<open>float\<close> has 24
  significant bits: the result of an operation on \<^verbatim>\<open>float\<close> operands, and of a conversion
  to \<^verbatim>\<open>float\<close>, is the exact result rounded to the nearest number with 24 significant
  bits, to the even one of two that are equally near. \<open>to_float\<close> is that rounding; the
  exponent is not bounded, so overflow, underflow, infinities and NaN are not represented.
  Arithmetic in \<^verbatim>\<open>double\<close> is exact.
\<close>

definition roundEven :: "real \<Rightarrow> int" where
  "roundEven y =
     (let f = \<lfloor>y\<rfloor>
      in if y - real_of_int f < 1 / 2 then f
         else if 1 / 2 < y - real_of_int f then f + 1
         else if even f then f else f + 1)"

definition to_float :: "real \<Rightarrow> real" where
  "to_float x =
     (if x = 0 then 0
      else (let e = \<lfloor>log 2 \<bar>x\<bar>\<rfloor> - 23
            in real_of_int (roundEven (x / 2 powi e)) * 2 powi e))"

text \<open>The conversion \<^verbatim>\<open>(int) x\<close> of a floating-point value truncates towards zero.\<close>

definition trunc :: "real \<Rightarrow> int" where
  "trunc x = (if 0 \<le> x then \<lfloor>x\<rfloor> else \<lceil>x\<rceil>)"

text \<open>\<^verbatim>\<open>pow (x, n)\<close> for an integer exponent.\<close>

definition pow :: "real \<Rightarrow> int \<Rightarrow> real" where
  "pow x n = (if 0 \<le> n then x ^ nat n else 1 / x ^ nat (- n))"

text \<open>
  The local variables computed from the arguments before the first loop. The rates, the
  cutoff and the transition width are \<^verbatim>\<open>float\<close> arguments, so the quotients
  \<^verbatim>\<open>_cutoff / _runrate\<close> and \<^verbatim>\<open>_xbw / _runrate\<close> and their products with \<^verbatim>\<open>_N\<close>
  (converted to \<^verbatim>\<open>float\<close>) are \<^verbatim>\<open>float\<close> results, and so is the whole right-hand side of
  \<^verbatim>\<open>offset\<close>.
\<close>

definition u_samps :: "int \<Rightarrow> int" where
  "u_samps N = (N + 1) div 2"

definition c_samps :: "real \<Rightarrow> real \<Rightarrow> int \<Rightarrow> int" where
  "c_samps cutoff runrate N =
     trunc (to_float (to_float (cutoff / runrate) * to_float (real_of_int N)))
       + (N + 1) div 2 - N div 2"

definition x_samps :: "real \<Rightarrow> real \<Rightarrow> int \<Rightarrow> int" where
  "x_samps xbw runrate N =
     trunc (to_float (to_float (xbw / runrate) * to_float (real_of_int N)))"

definition offset :: "int \<Rightarrow> real" where
  "offset N =
     to_float (0.5 - to_float (0.5 * to_float (real_of_int ((N + 1) div 2 - N div 2))))"

text \<open>
  The table of the raised cosine: \<^verbatim>\<open>xistion[i] = 0.5 * (cos (phs) + 1.0); phs += delta\<close>
  for \<open>i\<close> from 0 to \<open>x_samps\<close>, with \<^verbatim>\<open>delta = PI / (float)x_samps\<close>. For \<open>x_samps = 0\<close>
  the only entry is written from \<open>phs = 0\<close>, before \<open>delta\<close> is added.
\<close>

definition xistionStep :: "real \<Rightarrow> nat \<Rightarrow> real \<times> real list \<Rightarrow> real \<times> real list" where
  "xistionStep delta i st =
     (case st of (phs, xistion) \<Rightarrow> (phs + delta, xistion[i := 0.5 * (cos phs + 1)]))"

definition xistionTable :: "int \<Rightarrow> real list" where
  "xistionTable xs =
     snd (fold (xistionStep (pi / to_float (real_of_int xs))) [0..<nat (xs + 1)]
            (0, replicate (nat (xs + 1)) 0))"

text \<open>
  The peak gain of the CIC at the cutoff, by which the filter is normalised, and the gain
  of an in-band sample; both are made non-negative by the source.
\<close>

definition peakGain :: "int \<Rightarrow> int \<Rightarrow> real \<Rightarrow> real" where
  "peakGain DD R ft =
     \<bar>real_of_int (DD * R) * sin (pi * ft / real_of_int R) / sin (pi * real_of_int DD * ft)\<bar>"

definition local_scale :: "int \<Rightarrow> int \<Rightarrow> int \<Rightarrow> real \<Rightarrow> real \<Rightarrow> real" where
  "local_scale DD R Pairs ft scale = scale / pow (peakGain DD R ft) Pairs"

definition inbandGain :: "int \<Rightarrow> int \<Rightarrow> real \<Rightarrow> real" where
  "inbandGain DD R fn =
     (if fn = 0 then 1
      else \<bar>sin (pi * real_of_int DD * fn) / (real_of_int (DD * R) * sin (pi * fn / real_of_int R))\<bar>)"

text \<open>
  One iteration of the loop for \<^verbatim>\<open>_xtype == 0\<close> (fourth-power rolloff). The loop state
  is \<open>ri\<close>, \<open>mag\<close> and the array \<open>A\<close>; \<open>L\<close> is \<^verbatim>\<open>_cicrate / _runrate\<close> and \<open>ls\<close> the
  local scale. \<open>mag\<close> is a \<^verbatim>\<open>double\<close>; the array holds it converted to \<^verbatim>\<open>float\<close>.
\<close>

definition powerLawStep ::
  "int \<Rightarrow> int \<Rightarrow> int \<Rightarrow> int \<Rightarrow> real \<Rightarrow> real \<Rightarrow> real \<Rightarrow> nat \<Rightarrow>
   real \<times> real \<times> real list \<Rightarrow> real \<times> real \<times> real list" where
  "powerLawStep N DD R Pairs L ft ls i st =
     (case st of (ri, mag, A) \<Rightarrow>
        (let fn = ri / (L * to_float (real_of_int N));
             mag' = (if fn \<le> ft then pow (inbandGain DD R fn) Pairs * ls
                     else mag * ((ft * ft * ft * ft) / (fn * fn * fn * fn)))
         in (ri + 1, mag', A[i := to_float mag'])))"

text \<open>One iteration of the loop for \<^verbatim>\<open>_xtype == 1\<close> (raised cosine transition).\<close>

definition raisedCosineStep ::
  "int \<Rightarrow> int \<Rightarrow> int \<Rightarrow> int \<Rightarrow> real \<Rightarrow> real \<Rightarrow> int \<Rightarrow> int \<Rightarrow> real list \<Rightarrow> nat \<Rightarrow>
   real \<times> real \<times> real list \<Rightarrow> real \<times> real \<times> real list" where
  "raisedCosineStep N DD R Pairs L ls cs xs xistion i st =
     (case st of (ri, mag, A) \<Rightarrow>
        (let fn = ri / (L * to_float (real_of_int N))
         in if int i < cs then
              (let mag' = pow (inbandGain DD R fn) Pairs * ls
               in (ri + 1, mag', A[i := to_float mag']))
            else if cs \<le> int i \<and> int i \<le> cs + xs then
              (ri + 1, mag, A[i := to_float (mag * xistion ! nat (int i - cs))])
            else (ri + 1, mag, A[i := 0])))"

text \<open>
  One iteration of a mirroring loop, \<^verbatim>\<open>A[i] = A[u_samps - j]\<close> with \<open>j\<close> counted up
  beside \<open>i\<close>.
\<close>

definition mirrorStep :: "int \<Rightarrow> nat \<Rightarrow> int \<times> real list \<Rightarrow> int \<times> real list" where
  "mirrorStep u i st = (case st of (j, A) \<Rightarrow> (j + 1, A[i := A ! nat (u - j)]))"

text \<open>
  The array \<open>A\<close> after the loop over the unique samples. \<open>A\<close> is created with \<open>N\<close> zeros
  and \<open>mag\<close> starts at 0; for a transition type other than 0 and 1 no loop runs. The
  normalized cutoff \<open>ft\<close> and the rate ratio \<open>L\<close> are \<^verbatim>\<open>float\<close> quotients stored in a
  \<^verbatim>\<open>double\<close>.
\<close>

definition uniqueHalf ::
  "int \<Rightarrow> int \<Rightarrow> int \<Rightarrow> int \<Rightarrow> real \<Rightarrow> real \<Rightarrow> real \<Rightarrow> int \<Rightarrow> real \<Rightarrow> real \<Rightarrow> real list" where
  "uniqueHalf N DD R Pairs runrate cicrate cutoff xtype xbw scale =
     (let ft = to_float (cutoff / cicrate);
          L = to_float (cicrate / runrate);
          xistion = xistionTable (x_samps xbw runrate N);
          ls = local_scale DD R Pairs ft scale;
          A = replicate (nat N) 0
      in if xtype = 0 then
           snd (snd (fold (powerLawStep N DD R Pairs L ft ls)
                       [0..<nat (u_samps N)] (offset N, 0, A)))
         else if xtype = 1 then
           snd (snd (fold (raisedCosineStep N DD R Pairs L ls
                             (c_samps cutoff runrate N) (x_samps xbw runrate N) xistion)
                       [0..<nat (u_samps N)] (offset N, 0, A)))
         else A)"

text \<open>
  The mirroring of the unique half into the rest of the array: for odd \<open>N\<close> the counter
  \<open>j\<close> starts at 2, for even \<open>N\<close> at 1; \<open>i\<close> runs from \<open>u_samps\<close> to \<open>N - 1\<close>.
\<close>

definition mirror :: "int \<Rightarrow> real list \<Rightarrow> real list" where
  "mirror N A =
     (if N mod 2 = 1
      then snd (fold (mirrorStep (u_samps N)) [nat (u_samps N)..<nat N] (2, A))
      else snd (fold (mirrorStep (u_samps N)) [nat (u_samps N)..<nat N] (1, A)))"

text \<open>
  The magnitude array as it stands after the last loop, before it is handed to
  \<^verbatim>\<open>FIR::fir_fsamp\<close>. The two vectors are constructed first; either constructor throws
  when its size is negative.
\<close>

definition icfir_A ::
  "int \<Rightarrow> int \<Rightarrow> int \<Rightarrow> int \<Rightarrow> real \<Rightarrow> real \<Rightarrow> real \<Rightarrow> int \<Rightarrow> real \<Rightarrow> real \<Rightarrow>
   icfir_error + real list" where
  "icfir_A N DD R Pairs runrate cicrate cutoff xtype xbw scale =
     (if N < 0 then Inl LengthError
      else if x_samps xbw runrate N + 1 < 0 then Inl LengthError
      else Inr (mirror N (uniqueHalf N DD R Pairs runrate cicrate cutoff xtype xbw scale)))"

text \<open>\<^verbatim>\<open>_impulse.resize(2 * _N)\<close>: existing elements are kept, new ones are zero.\<close>

definition resize :: "nat \<Rightarrow> real list \<Rightarrow> real list" where
  "resize n v = take n v @ replicate (n - length v) 0"

text \<open>
  Modelled from the spec: \<^verbatim>\<open>FIR::fir_fsamp\<close> (\<^verbatim>\<open>wdsp/fir.cpp\<close> is not among the
  sources) is the window-weighted inverse transform that turns the magnitude array into
  the time-domain taps. It receives the impulse vector by reference, already resized by
  its caller, and writes the taps into it. What tap \<open>k\<close> is, given the other arguments, is
  the parameter \<open>taps\<close>.
\<close>

definition fir_fsamp ::
  "(int \<Rightarrow> real list \<Rightarrow> int \<Rightarrow> real \<Rightarrow> int \<Rightarrow> nat \<Rightarrow> real) \<Rightarrow>
   real list \<Rightarrow> int \<Rightarrow> real list \<Rightarrow> int \<Rightarrow> real \<Rightarrow> int \<Rightarrow> real list" where
  "fir_fsamp taps c_impulse N A rtype scale wintype =
     map (taps N A rtype scale wintype) [0..<length c_impulse]"

text \<open>
  \<^verbatim>\<open>ICFIR::icfir_impulse\<close>; \<open>impulse\<close> is the vector passed by reference as it is on
  entry, the result is the vector on return.
\<close>

definition icfir_impulse ::
  "(int \<Rightarrow> real list \<Rightarrow> int \<Rightarrow> real \<Rightarrow> int \<Rightarrow> nat \<Rightarrow> real) \<Rightarrow> real list \<Rightarrow>
   int \<Rightarrow> int \<Rightarrow> int \<Rightarrow> int \<Rightarrow> real \<Rightarrow> real \<Rightarrow> real \<Rightarrow> int \<Rightarrow> real \<Rightarrow> int \<Rightarrow> real \<Rightarrow> int \<Rightarrow>
   icfir_error + real list" where
  "icfir_impulse taps impulse N DD R Pairs runrate cicrate cutoff xtype xbw rtype scale wintype =
     (case icfir_A N DD R Pairs runrate cicrate cutoff xtype xbw scale of
        Inl e \<Rightarrow> Inl e
      | Inr A \<Rightarrow> Inr (fir_fsamp taps (resize (nat (2 * N)) impulse) N A rtype 1 wintype))"

section \<open>Construction and example inputs\<close>

text \<open>
  \<^verbatim>\<open>SpectrumVis::SpectrumVis(Real scalef)\<close>: the member initialisers, then
  \<^verbatim>\<open>applySettings(m_settings, true)\<close>. The default settings, the web socket server as
  its constructor leaves it and the empty accumulators come from classes outside the
  sources and are parameters; the members the initialiser list leaves out are overwritten
  by the forced configuration.
\<close>

definition SpectrumVis_ctor ::
  "('m, 'f, 'x) collaborators \<Rightarrow> GLSpectrumSettings \<Rightarrow> WSSpectrum \<Rightarrow> 'm \<Rightarrow> 'f \<Rightarrow> 'x \<Rightarrow> real \<Rightarrow>
   ('m, 'f, 'x) SpectrumVis" where
  "SpectrumVis_ctor E defaults ws mv fx mx scalef =
     applySettings E defaults True
       \<lparr>m_running = True,
        m_fft = None,
        m_fftEngineSequence = 0,
        m_window = [],
        m_fftBuffer = replicate (nat MAX_FFT_SIZE) 0,
        m_powerSpectrum = replicate (nat MAX_FFT_SIZE) 0,
        m_settings = defaults,
        m_overlapSize = 0,
        m_refillSize = 0,
        m_fftBufferFill = 0,
        m_needMoreSamples = False,
        m_scalef = scalef,
        m_glSpectrum = False,
        m_wsSpectrum = ws,
        m_movingAverage = mv,
        m_fixedAverage = fx,
        m_max = mx,
        m_centerFrequency = 0,
        m_sampleRate = 48000,
        m_ofs = 0,
        m_powFFTDiv = 1,
        m_mutex = False,
        calls = []\<rparr>"

text \<open>
  Concrete inputs for the worked examples: a pipeline with FFT size 64, no overlap, no
  averaging and linear display; collaborators with a rectangular window and a transform
  that hands its input through.
\<close>

definition exampleSettings :: GLSpectrumSettings where
  "exampleSettings =
     \<lparr>m_fftSize = 64, m_fftOverlap = 0, m_fftWindow = 0, m_refLevel = 0, m_powerRange = 100,
      m_averagingIndex = 0, m_averagingMode = AvgModeNone, m_linear = True, m_ssb = False,
      m_usb = True, m_wsSpectrumAddress = ''127.0.0.1'', m_wsSpectrumPort = 8887\<rparr>"

definition exampleCollaborators :: "(unit, unit, unit) collaborators" where
  "exampleCollaborators =
     \<lparr>getAveragingValue = (\<lambda>i m. 1),
      getEngine = (\<lambda>n inverse. (1, Some 7)),
      transform = (\<lambda>engine input. input),
      windowCoefficients = (\<lambda>f n. replicate (nat n) 1),
      movingResize = (\<lambda>n d a. a),
      movingStoreAndGetAvg = (\<lambda>v i a. (v, a)),
      movingNextAverage = (\<lambda>a. a),
      fixedResize = (\<lambda>n d a. a),
      fixedStoreAndGetAvg = (\<lambda>v i a. (Some v, a)),
      fixedNextAverage = (\<lambda>a. (True, a)),
      maxResize = (\<lambda>n d a. a),
      maxStoreAndGetMax = (\<lambda>v i a. (Some v, a)),
      maxNextMax = (\<lambda>a. (True, a))\<rparr>"

text \<open>A freshly constructed pipeline with a display sink attached.\<close>

definition exampleVis :: "(unit, unit, unit) SpectrumVis" where
  "exampleVis =
     (SpectrumVis_ctor exampleCollaborators exampleSettings
        \<lparr>listeningAddress = [], port = 0, socketOpened = False\<rparr> () () () 1)
       \<lparr>m_glSpectrum := True\<rparr>"

section \<open>Properties of the configuration\<close>

lemma emit_simps [simp]:
  "calls (emit c s) = calls s @ [c]"
  "m_settings (emit c s) = m_settings s"
  "m_fft (emit c s) = m_fft s"
  "m_wsSpectrum (emit c s) = m_wsSpectrum s"
  "m_glSpectrum (emit c s) = m_glSpectrum s"
  "m_fftEngineSequence (emit c s) = m_fftEngineSequence s"
  "m_movingAverage (emit c s) = m_movingAverage s"
  "m_fixedAverage (emit c s) = m_fixedAverage s"
  "m_max (emit c s) = m_max s"
  by (simp_all add: emit_def)

lemma displayFrames_append: "displayFrames (xs @ ys) = displayFrames xs @ displayFrames ys"
  by (induction xs rule: displayFrames.induct) simp_all

lemma acquireEngine_fields [simp]:
  "m_settings (acquireEngine E n s) = m_settings s"
  "m_fft (acquireEngine E n s) = snd (getEngine E n False)"
  "m_powFFTDiv (acquireEngine E n s) = real_of_int (n * n)"
  "m_running (acquireEngine E n s) = m_running s"
  "m_glSpectrum (acquireEngine E n s) = m_glSpectrum s"
  "m_mutex (acquireEngine E n s) = m_mutex s"
  "m_fftBuffer (acquireEngine E n s) = m_fftBuffer s"
  "m_powerSpectrum (acquireEngine E n s) = m_powerSpectrum s"
  "m_wsSpectrum (acquireEngine E n s) = m_wsSpectrum s"
  "m_scalef (acquireEngine E n s) = m_scalef s"
  "length (calls (acquireEngine E n s)) = length (calls s) + (if m_fft s \<noteq> None then 2 else 1)"
  "displayFrames (calls (acquireEngine E n s)) = displayFrames (calls s)"
  by (simp_all add: acquireEngine_def Let_def emit_def displayFrames_append)

lemma createWindow_fields [simp]:
  "m_settings (createWindow E w n s) = m_settings s"
  "m_fft (createWindow E w n s) = m_fft s"
  "m_powFFTDiv (createWindow E w n s) = m_powFFTDiv s"
  "m_running (createWindow E w n s) = m_running s"
  "m_glSpectrum (createWindow E w n s) = m_glSpectrum s"
  "m_mutex (createWindow E w n s) = m_mutex s"
  "m_fftBuffer (createWindow E w n s) = m_fftBuffer s"
  "m_powerSpectrum (createWindow E w n s) = m_powerSpectrum s"
  "m_wsSpectrum (createWindow E w n s) = m_wsSpectrum s"
  "m_scalef (createWindow E w n s) = m_scalef s"
  "length (calls (createWindow E w n s)) = length (calls s) + 1"
  "displayFrames (calls (createWindow E w n s)) = displayFrames (calls s)"
  by (simp_all add: createWindow_def emit_def displayFrames_append)

lemma setOverlap_fields [simp]:
  "m_settings (setOverlap n p s) = m_settings s"
  "m_fft (setOverlap n p s) = m_fft s"
  "m_powFFTDiv (setOverlap n p s) = m_powFFTDiv s"
  "m_running (setOverlap n p s) = m_running s"
  "m_glSpectrum (setOverlap n p s) = m_glSpectrum s"
  "m_mutex (setOverlap n p s) = m_mutex s"
  "m_fftBuffer (setOverlap n p s) = m_fftBuffer s"
  "m_powerSpectrum (setOverlap n p s) = m_powerSpectrum s"
  "m_wsSpectrum (setOverlap n p s) = m_wsSpectrum s"
  "m_scalef (setOverlap n p s) = m_scalef s"
  "calls (setOverlap n p s) = calls s"
  "m_overlapSize (setOverlap n p s) = n * p div 100"
  "m_refillSize (setOverlap n p s) = n - n * p div 100"
  "m_fftBufferFill (setOverlap n p s) = n * p div 100"
  by (simp_all add: setOverlap_def Let_def)

lemma resizeAverages_fields [simp]:
  "m_settings (resizeAverages E n i m s) = m_settings s"
  "m_fft (resizeAverages E n i m s) = m_fft s"
  "m_powFFTDiv (resizeAverages E n i m s) = m_powFFTDiv s"
  "m_running (resizeAverages E n i m s) = m_running s"
  "m_glSpectrum (resizeAverages E n i m s) = m_glSpectrum s"
  "m_mutex (resizeAverages E n i m s) = m_mutex s"
  "m_fftBuffer (resizeAverages E n i m s) = m_fftBuffer s"
  "m_powerSpectrum (resizeAverages E n i m s) = m_powerSpectrum s"
  "m_wsSpectrum (resizeAverages E n i m s) = m_wsSpectrum s"
  "m_scalef (resizeAverages E n i m s) = m_scalef s"
  "length (calls (resizeAverages E n i m s)) = length (calls s) + 3"
  "displayFrames (calls (resizeAverages E n i m s)) = displayFrames (calls s)"
  "m_overlapSize (resizeAverages E n i m s) = m_overlapSize s"
  "m_refillSize (resizeAverages E n i m s) = m_refillSize s"
  "m_fftBufferFill (resizeAverages E n i m s) = m_fftBufferFill s"
  by (simp_all add: resizeAverages_def Let_def emit_def displayFrames_append)

lemma handleConfigureWSSpectrum_fields [simp]:
  "m_settings (handleConfigureWSSpectrum a p s) = m_settings s"
  "m_fft (handleConfigureWSSpectrum a p s) = m_fft s"
  "m_powFFTDiv (handleConfigureWSSpectrum a p s) = m_powFFTDiv s"
  "m_running (handleConfigureWSSpectrum a p s) = m_running s"
  "m_glSpectrum (handleConfigureWSSpectrum a p s) = m_glSpectrum s"
  "m_mutex (handleConfigureWSSpectrum a p s) = m_mutex s"
  "m_fftBuffer (handleConfigureWSSpectrum a p s) = m_fftBuffer s"
  "m_powerSpectrum (handleConfigureWSSpectrum a p s) = m_powerSpectrum s"
  "m_scalef (handleConfigureWSSpectrum a p s) = m_scalef s"
  "length (calls (handleConfigureWSSpectrum a p s))
     = length (calls s) + (if socketOpened (m_wsSpectrum s) then 4 else 2)"
  "displayFrames (calls (handleConfigureWSSpectrum a p s)) = displayFrames (calls s)"
  "m_overlapSize (handleConfigureWSSpectrum a p s) = m_overlapSize s"
  "m_refillSize (handleConfigureWSSpectrum a p s) = m_refillSize s"
  "m_fftBufferFill (handleConfigureWSSpectrum a p s) = m_fftBufferFill s"
  "socketOpened (m_wsSpectrum (handleConfigureWSSpectrum a p s)) = socketOpened (m_wsSpectrum s)"
  by (simp_all add: handleConfigureWSSpectrum_def Let_def emit_def displayFrames_append)

text \<open>The two conditional expressions at the head of \<open>applySettings\<close> are clamps.\<close>

lemma clamp_fftSize:
  "(if n > MAX_FFT_SIZE then MAX_FFT_SIZE else if n < 64 then 64 else n) = max 64 (min 4096 n)"
  by (simp add: MAX_FFT_SIZE_def max_def min_def)

lemma clamp_overlap:
  "(if p > 100 then 100 else if p < 0 then 0 else p) = max 0 (min 100 (p::int))"
  by (simp add: max_def min_def)

text \<open>The settings stored by a configuration call.\<close>

lemma applySettings_stores:
  "m_settings (applySettings E settings force s)
     = settings\<lparr>m_fftSize := max 64 (min 4096 (m_fftSize settings)),
                 m_fftOverlap := max 0 (min 100 (m_fftOverlap settings))\<rparr>"
  unfolding applySettings_def clamp_fftSize clamp_overlap
  by (simp add: Let_def)

text \<open>
  A call without force in a state that already stores the clamped configuration runs none
  of the blocks.
\<close>

lemma applySettings_unchanged:
  assumes "m_settings t = cfg\<lparr>m_fftSize := max 64 (min 4096 (m_fftSize cfg)),
                               m_fftOverlap := max 0 (min 100 (m_fftOverlap cfg))\<rparr>"
  shows "applySettings E cfg False t = t"
proof -
  have "t\<lparr>m_settings := m_settings t\<rparr> = t"
    by simp
  then show ?thesis
    unfolding applySettings_def clamp_fftSize clamp_overlap assms
    by (simp add: Let_def)
qed

lemma applySettings_forced:
  "applySettings E cfg True s0 =
     (handleConfigureWSSpectrum (m_wsSpectrumAddress cfg) (m_wsSpectrumPort cfg)
        (resizeAverages E (max 64 (min 4096 (m_fftSize cfg))) (m_averagingIndex cfg) (m_averagingMode cfg)
           (setOverlap (max 64 (min 4096 (m_fftSize cfg))) (max 0 (min 100 (m_fftOverlap cfg)))
              (createWindow E (m_fftWindow cfg) (max 64 (min 4096 (m_fftSize cfg)))
                 (acquireEngine E (max 64 (min 4096 (m_fftSize cfg))) s0)))))
       \<lparr>m_settings := cfg\<lparr>m_fftSize := max 64 (min 4096 (m_fftSize cfg)),
                              m_fftOverlap := max 0 (min 100 (m_fftOverlap cfg))\<rparr>\<rparr>"
  unfolding applySettings_def clamp_fftSize clamp_overlap
  by (simp add: Let_def)

text \<open>
  What a forced configuration establishes: the members derived from the settings, the
  staging buffer at its start, and the members it does not touch.
\<close>

lemma applySettings_forced_members:
  assumes "s = applySettings E cfg True s0"
  shows "m_overlapSize s = m_fftSize (m_settings s) * m_fftOverlap (m_settings s) div 100"
    and "m_refillSize s = m_fftSize (m_settings s) - m_overlapSize s"
    and "m_fftBufferFill s = m_overlapSize s"
    and "64 \<le> m_fftSize (m_settings s)" and "m_fftSize (m_settings s) \<le> 4096"
    and "m_powFFTDiv s = real_of_int (m_fftSize (m_settings s) * m_fftSize (m_settings s))"
    and "m_fft s = snd (getEngine E (m_fftSize (m_settings s)) False)"
    and "m_averagingMode (m_settings s) = m_averagingMode cfg"
    and "m_running s = m_running s0" and "m_glSpectrum s = m_glSpectrum s0"
    and "m_mutex s = m_mutex s0"
    and "m_fftBuffer s = m_fftBuffer s0" and "m_powerSpectrum s = m_powerSpectrum s0"
  unfolding assms applySettings_forced by simp_all

lemma exampleVis_fields:
  "m_running exampleVis" "m_glSpectrum exampleVis" "\<not> m_mutex exampleVis"
  "m_settings exampleVis = exampleSettings"
  "m_fft exampleVis = Some 7"
  "m_overlapSize exampleVis = 0" "m_refillSize exampleVis = 64" "m_fftBufferFill exampleVis = 0"
  "length (m_fftBuffer exampleVis) = 4096" "length (m_powerSpectrum exampleVis) = 4096"
  "m_powFFTDiv exampleVis = 4096"
  "length (calls exampleVis) = 7"
  "displayFrames (calls exampleVis) = []"
  "m_scalef exampleVis = 1"
  "\<not> socketOpened (m_wsSpectrum exampleVis)"
  by (simp_all add: exampleVis_def SpectrumVis_ctor_def applySettings_forced MAX_FFT_SIZE_def
        exampleSettings_def exampleCollaborators_def)

lemma exampleVis_forced_calls:
  "length (calls (applySettings exampleCollaborators (exampleSettings\<lparr>m_fftSize := 5000\<rparr>) True
      exampleVis)) = 15"
  by (simp add: applySettings_forced exampleVis_fields)

text \<open>
  Claim C5. Whatever configuration is requested, \<open>applySettings\<close> returns a state (it has
  no failing branch). The settings it stores are the requested ones with the FFT size
  clamped into 64..4096 and the overlap percentage into 0..100, and these clamped values
  are what the settings-read path \<open>webapiSpectrumSettingsGet\<close> reports, with status 200.
\<close>

theorem applySettings_clamps:
  "m_settings (applySettings E settings force s)
     = settings\<lparr>m_fftSize := max 64 (min 4096 (m_fftSize settings)),
                 m_fftOverlap := max 0 (min 100 (m_fftOverlap settings))\<rparr>
   \<and> fst (webapiSpectrumSettingsGet E (applySettings E settings force s)) = 200
   \<and> fftSize (snd (webapiSpectrumSettingsGet E (applySettings E settings force s)))
       = max 64 (min 4096 (m_fftSize settings))
   \<and> fftOverlap (snd (webapiSpectrumSettingsGet E (applySettings E settings force s)))
       = max 0 (min 100 (m_fftOverlap settings))
   \<and> 64 \<le> fftSize (snd (webapiSpectrumSettingsGet E (applySettings E settings force s)))
   \<and> fftSize (snd (webapiSpectrumSettingsGet E (applySettings E settings force s))) \<le> 4096
   \<and> 0 \<le> fftOverlap (snd (webapiSpectrumSettingsGet E (applySettings E settings force s)))
   \<and> fftOverlap (snd (webapiSpectrumSettingsGet E (applySettings E settings force s))) \<le> 100"
  unfolding webapiSpectrumSettingsGet_def webapiFormatSpectrumSettings_def applySettings_stores
  by simp

text \<open>
  A request for FFT size 100000 and overlap -5 on the example pipeline is stored and
  reported as 4096 and 0; the other fields are stored as requested.
\<close>

theorem applySettings_clamps_witness:
  "fftSize (snd (webapiSpectrumSettingsGet exampleCollaborators
      (applySettings exampleCollaborators
         (exampleSettings\<lparr>m_fftSize := 100000, m_fftOverlap := - 5\<rparr>) False exampleVis))) = 4096
   \<and> fftOverlap (snd (webapiSpectrumSettingsGet exampleCollaborators
      (applySettings exampleCollaborators
         (exampleSettings\<lparr>m_fftSize := 100000, m_fftOverlap := - 5\<rparr>) False exampleVis))) = 0
   \<and> m_settings (applySettings exampleCollaborators
         (exampleSettings\<lparr>m_fftSize := 100000, m_fftOverlap := - 5\<rparr>) False exampleVis)
       = exampleSettings\<lparr>m_fftSize := 4096, m_fftOverlap := 0\<rparr>"
  using applySettings_clamps [of exampleCollaborators
          "exampleSettings\<lparr>m_fftSize := 100000, m_fftOverlap := - 5\<rparr>" False exampleVis]
  by (simp add: exampleSettings_def)

text \<open>
  Claim C4. A forced configuration followed at once by the same configuration without
  force leaves the whole state as the first call made it. The trace of calls is part of
  the state, so the second call neither releases nor acquires a transform engine, does
  not create the window again and does not resize any averaging accumulator.
\<close>

theorem applySettings_twice_no_rebuild:
  "applySettings E cfg False (applySettings E cfg True s) = applySettings E cfg True s
   \<and> calls (applySettings E cfg False (applySettings E cfg True s))
       = calls (applySettings E cfg True s)"
  by (simp add: applySettings_unchanged [OF applySettings_stores])

text \<open>
  On the example pipeline, whose trace has seven entries, with an out-of-range request:
  the forced call adds eight entries (release, acquire, window, three resizes, socket
  address and port), the second call adds none.
\<close>

theorem applySettings_twice_no_rebuild_witness:
  "length (calls (applySettings exampleCollaborators (exampleSettings\<lparr>m_fftSize := 5000\<rparr>) False
      (applySettings exampleCollaborators (exampleSettings\<lparr>m_fftSize := 5000\<rparr>) True exampleVis)))
   = 15
   \<and> length (calls exampleVis) = 7"
  using applySettings_twice_no_rebuild [of exampleCollaborators
          "exampleSettings\<lparr>m_fftSize := 5000\<rparr>" exampleVis]
        exampleVis_forced_calls exampleVis_fields(12)
  by simp

section \<open>Properties of the streaming feed\<close>

text \<open>
  Claim C9. \<open>stop\<close> only clears the running flag and doing it twice is the same as once.
  In a stopped pipeline the streaming \<open>feed\<close> returns at its first test: it returns, the
  state it returns is the state it was given (staging buffer, fill pointer, settings,
  accumulators and trace of published frames included), whatever the samples and the flag.
\<close>

theorem feed_stopped_is_noop:
  "feed E samples positiveOnly (stop s) = Some (Inr (stop s))
   \<and> stop (stop s) = stop s
   \<and> stop s = s\<lparr>m_running := False\<rparr>"
  by (simp add: feed_def stop_def)

theorem feed_stopped_is_noop_witness:
  "feed exampleCollaborators [Sample 1 2, Sample 3 4] False (stop exampleVis)
     = Some (Inr (stop exampleVis))
   \<and> m_running exampleVis \<and> \<not> m_running (stop exampleVis)"
  using feed_stopped_is_noop [of exampleCollaborators "[Sample 1 2, Sample 3 4]" False exampleVis]
        exampleVis_fields(1)
  by (simp add: stop_def)

lemma length_fillBuffer [simp]: "length (fillBuffer k xs it buf) = length buf"
  by (induction xs arbitrary: it buf) simp_all

lemma toDisplay_powerSpectrum [simp]:
  "toDisplay (s\<lparr>m_powerSpectrum := ps\<rparr>) v = toDisplay s v"
  by (simp add: toDisplay_def)

lemma storeBin_none:
  "m_averagingMode (m_settings s) = AvgModeNone \<Longrightarrow> storeBin E v idx s = (Some v, s)"
  by (simp add: storeBin_def)

lemma binShifted_none:
  "m_averagingMode (m_settings s) = AvgModeNone \<Longrightarrow>
   binShifted E out h i s =
     s\<lparr>m_powerSpectrum := (m_powerSpectrum s)
          [i := toDisplay s (magsq (out ! (i + h))), i + h := toDisplay s (magsq (out ! i))]\<rparr>"
  by (simp add: binShifted_def storeBin_none Let_def)

lemma binPositiveOnly_none:
  "m_averagingMode (m_settings s) = AvgModeNone \<Longrightarrow>
   binPositiveOnly E out i s =
     s\<lparr>m_powerSpectrum := (m_powerSpectrum s)
          [i * 2 := toDisplay s (magsq (out ! i)), i * 2 + 1 := toDisplay s (magsq (out ! i))]\<rparr>"
  by (simp add: binPositiveOnly_def storeBin_none Let_def)

lemma binDirect_none:
  "m_averagingMode (m_settings s) = AvgModeNone \<Longrightarrow>
   binDirect E bins i s =
     s\<lparr>m_powerSpectrum := (m_powerSpectrum s)
          [i := toDisplay s (magsq (if i < length bins then bins ! i else Complex 0 0))]\<rparr>"
  by (simp add: binDirect_def storeBin_none Let_def)

lemma fold_binShifted_none:
  "m_averagingMode (m_settings s) = AvgModeNone \<Longrightarrow>
   fold (binShifted E out h) [0..<n] s =
     s\<lparr>m_powerSpectrum :=
         fold (\<lambda>i ps. ps[i := toDisplay s (magsq (out ! (i + h))),
                        i + h := toDisplay s (magsq (out ! i))]) [0..<n] (m_powerSpectrum s)\<rparr>"
  by (induction n) (simp_all add: binShifted_none)

lemma fold_binPositiveOnly_none:
  "m_averagingMode (m_settings s) = AvgModeNone \<Longrightarrow>
   fold (binPositiveOnly E out) [0..<n] s =
     s\<lparr>m_powerSpectrum :=
         fold (\<lambda>i ps. ps[i * 2 := toDisplay s (magsq (out ! i)),
                        i * 2 + 1 := toDisplay s (magsq (out ! i))]) [0..<n] (m_powerSpectrum s)\<rparr>"
  by (induction n) (simp_all add: binPositiveOnly_none)

lemma fold_binDirect_none:
  "m_averagingMode (m_settings s) = AvgModeNone \<Longrightarrow>
   fold (binDirect E bins) [0..<n] s =
     s\<lparr>m_powerSpectrum :=
         fold (\<lambda>i ps. ps[i := toDisplay s (magsq (if i < length bins then bins ! i else Complex 0 0))])
           [0..<n] (m_powerSpectrum s)\<rparr>"
  by (induction n) (simp_all add: binDirect_none)

lemma fold_update2_length [simp]:
  "length (fold (\<lambda>i ps. ps[f i := a i, g i := b i]) xs ps) = length ps"
  by (induction xs arbitrary: ps) simp_all

lemma fold_update1_length [simp]:
  "length (fold (\<lambda>i ps. ps[f i := a i]) xs ps) = length ps"
  by (induction xs arbitrary: ps) simp_all

lemma shifted_untouched:
  "(n \<le> j \<and> j < h) \<or> h + n \<le> j \<Longrightarrow>
   fold (\<lambda>i ps. ps[i := a i, i + h := b i]) [0..<n] ps ! j = ps ! j"
  by (induction n) auto

lemma shifted_written:
  "n \<le> h \<Longrightarrow> h + n \<le> length ps \<Longrightarrow> i < n \<Longrightarrow>
   fold (\<lambda>i ps. ps[i := a i, i + h := b i]) [0..<n] ps ! i = a i
   \<and> fold (\<lambda>i ps. ps[i := a i, i + h := b i]) [0..<n] ps ! (i + h) = b i"
  by (induction n) (auto simp: nth_list_update less_Suc_eq)

lemma doubled_untouched:
  "2 * n \<le> j \<Longrightarrow>
   fold (\<lambda>i ps. ps[i * 2 := a i, i * 2 + 1 := a i]) [0..<n] ps ! j = ps ! j"
  by (induction n) auto

lemma doubled_written:
  "2 * n \<le> length ps \<Longrightarrow> i < n \<Longrightarrow>
   fold (\<lambda>i ps. ps[i * 2 := a i, i * 2 + 1 := a i]) [0..<n] ps ! (i * 2) = a i
   \<and> fold (\<lambda>i ps. ps[i * 2 := a i, i * 2 + 1 := a i]) [0..<n] ps ! (i * 2 + 1) = a i"
  by (induction n) (auto simp: nth_list_update less_Suc_eq)

lemma direct_untouched:
  "n \<le> j \<Longrightarrow> fold (\<lambda>i ps. ps[i := a i]) [0..<n] ps ! j = ps ! j"
  by (induction n) auto

lemma direct_written:
  "n \<le> length ps \<Longrightarrow> i < n \<Longrightarrow> fold (\<lambda>i ps. ps[i := a i]) [0..<n] ps ! i = a i"
  by (induction n) (auto simp: nth_list_update less_Suc_eq)


lemma publish_keeps:
  "m_settings (publish s) = m_settings s"
  "m_powerSpectrum (publish s) = m_powerSpectrum s"
  "m_fftBuffer (publish s) = m_fftBuffer s"
  "m_refillSize (publish s) = m_refillSize s"
  "m_overlapSize (publish s) = m_overlapSize s"
  "m_fftBufferFill (publish s) = m_fftBufferFill s"
  "m_running (publish s) = m_running s"
  "m_glSpectrum (publish s) = m_glSpectrum s"
  "m_mutex (publish s) = m_mutex s"
  "m_fft (publish s) = m_fft s"
  "m_wsSpectrum (publish s) = m_wsSpectrum s"
  "m_powFFTDiv (publish s) = m_powFFTDiv s"
  by (simp_all add: publish_def emit_def Let_def)

lemma publish_display:
  "m_glSpectrum s \<Longrightarrow>
   displayFrames (calls (publish s))
     = displayFrames (calls s) @ [(m_powerSpectrum s, m_fftSize (m_settings s))]"
  by (simp add: publish_def emit_def Let_def displayFrames_append)

lemma processFrame_none:
  assumes "m_averagingMode (m_settings s) = AvgModeNone"
    and "m_fft s = Some engine"
    and "0 \<le> m_refillSize s" "m_refillSize s \<le> int (length (m_fftBuffer s))"
  shows "processFrame E positiveOnly s =
     Inr ((publish (s\<lparr>m_powerSpectrum :=
              extracted s (transform E engine (FFTWindow_apply (m_window s) (m_fftBuffer s)))
                positiveOnly\<rparr>))
          \<lparr>m_fftBuffer := advance (nat (m_refillSize s)) (m_fftBuffer s),
           m_fftBufferFill := m_overlapSize s,
           m_needMoreSamples := False\<rparr>)"
  using assms
  by (simp add: processFrame_def Let_def fold_binShifted_none fold_binPositiveOnly_none
        publishByMode_def publish_keeps extracted_def)

lemma feedLoop_nil: "feedLoop E p [] s = Some (Inr s)"
  by (subst feedLoop.simps) simp

lemma feedLoop_completing:
  assumes "xs \<noteq> []"
    and "samplesNeeded t = length xs"
    and "stage xs t = Inr st"
    and "processFrame E p st = Inr s2"
  shows "feedLoop E p xs t = Some (Inr s2)"
  by (subst feedLoop.simps) (simp add: assms feedLoop_nil)

lemma feedLoop_partial:
  assumes "xs \<noteq> []"
    and "length xs < samplesNeeded t"
    and "stage xs t = Inr st"
  shows "feedLoop E p xs t =
     Some (Inr (st\<lparr>m_fftBufferFill := m_fftBufferFill st + int (length xs),
                    m_needMoreSamples := True\<rparr>))"
proof -
  from assms(2) have "\<not> samplesNeeded t \<le> length xs"
    by simp
  then show ?thesis
    by (subst feedLoop.simps) (simp add: assms(1,3))
qed

lemma stage_ok:
  assumes "0 \<le> m_fftBufferFill t"
    and "m_fftBufferFill t + int (length xs) \<le> int (length (m_fftBuffer t))"
  shows "stage xs t =
     Inr (t\<lparr>m_fftBuffer := fillBuffer (m_scalef t) xs (nat (m_fftBufferFill t)) (m_fftBuffer t)\<rparr>)"
  using assms by (simp add: stage_def)


lemma samplesNeeded_eq:
  "0 \<le> m_refillSize t - m_fftBufferFill t \<Longrightarrow> m_refillSize t - m_fftBufferFill t < 2 ^ 64 \<Longrightarrow>
   samplesNeeded t = nat (m_refillSize t - m_fftBufferFill t)"
  by (simp add: samplesNeeded_def)

text \<open>A chunk that brings the staging buffer exactly to the refill size completes a frame.\<close>

lemma feed_completing_chunk:
  assumes run: "m_running t" "m_glSpectrum t" "\<not> m_mutex t"
    and mode: "m_averagingMode (m_settings t) = AvgModeNone"
    and eng: "m_fft t = Some engine"
    and fill: "0 \<le> m_fftBufferFill t" "m_fftBufferFill t < m_refillSize t"
    and buf: "m_refillSize t \<le> int (length (m_fftBuffer t))" "length (m_fftBuffer t) = 4096"
    and len: "int (length xs) = m_refillSize t - m_fftBufferFill t"
    and st: "st = t\<lparr>m_fftBuffer :=
                     fillBuffer (m_scalef t) xs (nat (m_fftBufferFill t)) (m_fftBuffer t)\<rparr>"
  shows "feed E xs p t =
     Some (Inr ((publish (st\<lparr>m_powerSpectrum :=
              extracted st (transform E engine (FFTWindow_apply (m_window st) (m_fftBuffer st))) p\<rparr>))
          \<lparr>m_fftBuffer := advance (nat (m_refillSize st)) (m_fftBuffer st),
           m_fftBufferFill := m_overlapSize st,
           m_needMoreSamples := False\<rparr>))"
proof -
  from fill len have ne: "xs \<noteq> []"
    by auto
  from fill buf len have need: "samplesNeeded t = length xs"
    by (simp add: samplesNeeded_eq)
  from fill buf len have stg: "stage xs t = Inr st"
    unfolding st by (intro stage_ok) simp_all
  have pf: "processFrame E p st =
     Inr ((publish (st\<lparr>m_powerSpectrum :=
              extracted st (transform E engine (FFTWindow_apply (m_window st) (m_fftBuffer st))) p\<rparr>))
          \<lparr>m_fftBuffer := advance (nat (m_refillSize st)) (m_fftBuffer st),
           m_fftBufferFill := m_overlapSize st,
           m_needMoreSamples := False\<rparr>)"
    using mode eng fill buf by (intro processFrame_none) (simp_all add: st)
  show ?thesis
    using run feedLoop_completing [OF ne need stg pf] by (simp add: feed_def)
qed

text \<open>A shorter chunk is only staged.\<close>

lemma feed_partial_chunk:
  assumes run: "m_running t" "m_glSpectrum t" "\<not> m_mutex t"
    and fill: "0 \<le> m_fftBufferFill t"
    and buf: "m_refillSize t \<le> int (length (m_fftBuffer t))" "length (m_fftBuffer t) = 4096"
    and ne: "xs \<noteq> []"
    and len: "int (length xs) < m_refillSize t - m_fftBufferFill t"
  shows "feed E xs p t =
     Some (Inr (t\<lparr>m_fftBuffer :=
                     fillBuffer (m_scalef t) xs (nat (m_fftBufferFill t)) (m_fftBuffer t),
                   m_fftBufferFill := m_fftBufferFill t + int (length xs),
                   m_needMoreSamples := True\<rparr>))"
proof -
  from fill buf len have need: "length xs < samplesNeeded t"
    by (simp add: samplesNeeded_eq)
  from fill buf len have stg: "stage xs t =
      Inr (t\<lparr>m_fftBuffer := fillBuffer (m_scalef t) xs (nat (m_fftBufferFill t)) (m_fftBuffer t)\<rparr>)"
    by (intro stage_ok) simp_all
  show ?thesis
    using run feedLoop_partial [OF ne need stg] by (simp add: feed_def)
qed


lemma extracted_length [simp]: "length (extracted s out p) = length (m_powerSpectrum s)"
  by (simp add: extracted_def)

lemma feed_completing_chunk_frames:
  assumes run: "m_running t" "m_glSpectrum t" "\<not> m_mutex t"
    and mode: "m_averagingMode (m_settings t) = AvgModeNone"
    and eng: "m_fft t = Some engine"
    and fill: "0 \<le> m_fftBufferFill t" "m_fftBufferFill t < m_refillSize t"
    and buf: "m_refillSize t \<le> int (length (m_fftBuffer t))" "length (m_fftBuffer t) = 4096"
    and len: "int (length xs) = m_refillSize t - m_fftBufferFill t"
  shows "\<exists>s'. feed E xs p t = Some (Inr s')
     \<and> displayFrames (calls s')
         = displayFrames (calls t) @ [(m_powerSpectrum s', m_fftSize (m_settings t))]"
  using run(2) by (simp add: feed_completing_chunk [OF assms refl] publish_display publish_keeps)

text \<open>
  Claim C3. Take a running pipeline with a display sink, the lock free, no averaging, an
  engine acquired, the members derived from the settings as \<open>applySettings\<close> derives them,
  overlap 0 percent and the staging buffer at its start. Feeding as many samples as the
  FFT size returns and hands exactly one new frame, of the FFT size, to the display.
  Feeding two chunks of half the FFT size each (so the size is even and the two chunks
  make up one frame) returns both times, with no new frame after the first call and
  exactly one after the second.
\<close>

theorem feed_frames_without_overlap:
  assumes run: "m_running s" "m_glSpectrum s" "\<not> m_mutex s"
    and mode: "m_averagingMode (m_settings s) = AvgModeNone"
    and eng: "m_fft s \<noteq> None"
    and conf: "m_overlapSize s = m_fftSize (m_settings s) * m_fftOverlap (m_settings s) div 100"
      "m_refillSize s = m_fftSize (m_settings s) - m_overlapSize s"
    and ovl: "m_fftOverlap (m_settings s) = 0"
    and fresh: "m_fftBufferFill s = m_overlapSize s"
    and size: "0 < m_fftSize (m_settings s)" "m_fftSize (m_settings s) \<le> 4096"
      "length (m_fftBuffer s) = 4096"
  shows "(int (length xs) = m_fftSize (m_settings s) \<longrightarrow>
           (\<exists>s'. feed E xs positiveOnly s = Some (Inr s')
              \<and> displayFrames (calls s')
                  = displayFrames (calls s) @ [(m_powerSpectrum s', m_fftSize (m_settings s))]))
       \<and> (int (length ys) * 2 = m_fftSize (m_settings s) \<and> length zs = length ys \<longrightarrow>
           (\<exists>s1 s2. feed E ys positiveOnly s = Some (Inr s1)
              \<and> displayFrames (calls s1) = displayFrames (calls s)
              \<and> feed E zs positiveOnly s1 = Some (Inr s2)
              \<and> displayFrames (calls s2)
                  = displayFrames (calls s) @ [(m_powerSpectrum s2, m_fftSize (m_settings s))]))"
proof (intro conjI impI)
  from eng obtain engine where engine: "m_fft s = Some engine"
    by auto
  from conf ovl fresh have members:
    "m_overlapSize s = 0" "m_refillSize s = m_fftSize (m_settings s)" "m_fftBufferFill s = 0"
    by simp_all
  {
    assume len: "int (length xs) = m_fftSize (m_settings s)"
    show "\<exists>s'. feed E xs positiveOnly s = Some (Inr s')
        \<and> displayFrames (calls s')
            = displayFrames (calls s) @ [(m_powerSpectrum s', m_fftSize (m_settings s))]"
      using run mode engine members size len
      by (intro feed_completing_chunk_frames) simp_all
  }
  {
    assume "int (length ys) * 2 = m_fftSize (m_settings s) \<and> length zs = length ys"
    then have half: "int (length ys) * 2 = m_fftSize (m_settings s)" and same: "length zs = length ys"
      by simp_all
    define s1 where "s1 = s\<lparr>m_fftBuffer :=
                     fillBuffer (m_scalef s) ys (nat (m_fftBufferFill s)) (m_fftBuffer s),
                   m_fftBufferFill := m_fftBufferFill s + int (length ys),
                   m_needMoreSamples := True\<rparr>"
    from half size have ne: "ys \<noteq> []"
      by auto
    have first: "feed E ys positiveOnly s = Some (Inr s1)"
      unfolding s1_def using run members size half ne
      by (intro feed_partial_chunk) simp_all
    have "\<exists>s2. feed E zs positiveOnly s1 = Some (Inr s2)
        \<and> displayFrames (calls s2)
            = displayFrames (calls s1) @ [(m_powerSpectrum s2, m_fftSize (m_settings s1))]"
      using run mode engine members size half same
      by (intro feed_completing_chunk_frames) (simp_all add: s1_def)
    with first
    show "\<exists>s1 s2. feed E ys positiveOnly s = Some (Inr s1)
        \<and> displayFrames (calls s1) = displayFrames (calls s)
        \<and> feed E zs positiveOnly s1 = Some (Inr s2)
        \<and> displayFrames (calls s2)
            = displayFrames (calls s) @ [(m_powerSpectrum s2, m_fftSize (m_settings s))]"
      by (auto simp: s1_def)
  }
qed

text \<open>
  On the freshly constructed example pipeline (FFT size 64): 64 samples in one call give
  one frame; 32 and 32 samples give none after the first call and one after the second.
\<close>

theorem feed_frames_without_overlap_witness:
  "(\<exists>s'. feed exampleCollaborators (replicate 64 (Sample 1 0)) False exampleVis = Some (Inr s')
       \<and> length (displayFrames (calls s')) = 1)
   \<and> (\<exists>s1 s2. feed exampleCollaborators (replicate 32 (Sample 1 0)) False exampleVis = Some (Inr s1)
       \<and> displayFrames (calls s1) = []
       \<and> feed exampleCollaborators (replicate 32 (Sample 0 1)) False s1 = Some (Inr s2)
       \<and> length (displayFrames (calls s2)) = 1)"
proof -
  have hyps: "m_running exampleVis" "m_glSpectrum exampleVis" "\<not> m_mutex exampleVis"
    "m_averagingMode (m_settings exampleVis) = AvgModeNone"
    "m_fft exampleVis \<noteq> None"
    "m_overlapSize exampleVis
       = m_fftSize (m_settings exampleVis) * m_fftOverlap (m_settings exampleVis) div 100"
    "m_refillSize exampleVis = m_fftSize (m_settings exampleVis) - m_overlapSize exampleVis"
    "m_fftOverlap (m_settings exampleVis) = 0"
    "m_fftBufferFill exampleVis = m_overlapSize exampleVis"
    "0 < m_fftSize (m_settings exampleVis)" "m_fftSize (m_settings exampleVis) \<le> 4096"
    "length (m_fftBuffer exampleVis) = 4096"
    by (simp_all add: exampleVis_fields exampleSettings_def)
  have size: "m_fftSize (m_settings exampleVis) = 64"
    by (simp add: exampleVis_fields exampleSettings_def)
  show ?thesis
    using feed_frames_without_overlap [OF hyps, of "replicate 64 (Sample 1 0)" exampleCollaborators
        False "replicate 32 (Sample 1 0)" "replicate 32 (Sample 0 1)"]
    by (auto simp: exampleVis_fields exampleSettings_def)
qed

text \<open>
  The worked example for the reordering: the example pipeline fed with one full frame of
  64 samples, sample \<open>k\<close> having real part \<open>k\<close> and imaginary part 1. Its collaborators
  have a rectangular window and a transform that hands its input through, and the scale
  factor is 1, so that bin \<open>k\<close> of the transform output is that sample and its power is
  \<open>k\<^sup>2 + 1\<close>.
\<close>

lemma window_fields:
  "m_window (handleConfigureWSSpectrum a p s) = m_window s"
  "m_window (resizeAverages E n i m s) = m_window s"
  "m_window (setOverlap n q s) = m_window s"
  "m_window (createWindow E w n s) = windowCoefficients E w n"
  by (simp_all add: handleConfigureWSSpectrum_def resizeAverages_def setOverlap_def
        createWindow_def Let_def emit_def)

lemma exampleVis_buffers:
  "m_window exampleVis = replicate 64 1" "m_fftBuffer exampleVis = replicate 4096 0"
  by (simp_all add: exampleVis_def SpectrumVis_ctor_def applySettings_forced window_fields
        MAX_FFT_SIZE_def exampleSettings_def exampleCollaborators_def)

lemma fillBuffer_nth:
  "it + length xs \<le> length buf \<Longrightarrow>
   fillBuffer k xs it buf ! j =
     (if it \<le> j \<and> j < it + length xs
      then Complex (real_of_int (m_real (xs ! (j - it))) / k)
                   (real_of_int (m_imag (xs ! (j - it))) / k)
      else buf ! j)"
proof (induction xs arbitrary: it buf)
  case Nil
  then show ?case by auto
next
  case (Cons x xs)
  from Cons.prems have "Suc it + length xs \<le> length (buf[it := Complex (real_of_int (m_real x) / k) (real_of_int (m_imag x) / k)])"
    by simp
  from Cons.IH [OF this] Cons.prems show ?case
    by (auto simp: nth_list_update nth_Cons' Suc_diff_le)
qed

lemma FFTWindow_apply_nth:
  "j < length w \<Longrightarrow> j < length input \<Longrightarrow>
   FFTWindow_apply w input ! j = complex_of_real (w ! j) * input ! j"
  by (simp add: FFTWindow_apply_def)

lemma exampleOut:
  assumes "k < 64"
  shows "transform exampleCollaborators 7
           (FFTWindow_apply (m_window exampleVis)
              (fillBuffer 1 (map (\<lambda>k. Sample (int k) 1) [0..<64]) 0 (m_fftBuffer exampleVis))) ! k
         = Complex (real k) 1"
proof -
  have "fillBuffer 1 (map (\<lambda>k. Sample (int k) 1) [0..<64]) 0 (replicate 4096 0) ! k
      = Complex (real k) 1"
    using assms by (subst fillBuffer_nth) simp_all
  with assms show ?thesis
    by (simp add: exampleVis_buffers exampleCollaborators_def FFTWindow_apply_nth)
qed

text \<open>
  Claim C8. A call of the streaming \<open>feed\<close> that completes a frame, in the branch without
  averaging that the claim cites: \<open>fftOut\<close> is the output of the transform for the
  windowed staging buffer, the power of bin \<open>k\<close> is the square of the real part plus the
  square of the imaginary part of \<open>fftOut[k]\<close>, and what is shown for it is the power
  divided by \<open>m_powFFTDiv\<close> when the linear flag is set and \<open>10 / log 2 10\<close> times the
  binary logarithm of the power, plus \<open>m_ofs\<close>, otherwise. The conversion has to be
  defined: the divisor is not zero in linear display, and in logarithmic display every bin
  that is read has positive power (\<^verbatim>\<open>log2f (0)\<close> is minus infinity, which is not
  represented). The call
  returns and publishes one frame, the power spectrum of the returned state. With
  \<open>positiveOnly\<close> clear, position \<open>i\<close> holds what is shown for bin \<open>i + halfSize\<close> and
  position \<open>i + halfSize\<close> what is shown for bin \<open>i\<close>; with \<open>positiveOnly\<close> set, positions
  \<open>2 i\<close> and \<open>2 i + 1\<close> both hold what is shown for bin \<open>i\<close>; in each case for every \<open>i\<close>
  below \<open>halfSize\<close>, which is the FFT size halved.
\<close>

theorem feed_reorders_bins:
  assumes run: "m_running s" "m_glSpectrum s" "\<not> m_mutex s"
    and mode: "m_averagingMode (m_settings s) = AvgModeNone"
    and eng: "m_fft s = Some engine"
    and fill: "0 \<le> m_fftBufferFill s" "m_fftBufferFill s < m_refillSize s"
    and buf: "m_refillSize s \<le> int (length (m_fftBuffer s))" "length (m_fftBuffer s) = 4096"
    and len: "int (length xs) = m_refillSize s - m_fftBufferFill s"
    and ps: "m_fftSize (m_settings s) \<le> int (length (m_powerSpectrum s))"
    and out: "fftOut = transform E engine (FFTWindow_apply (m_window s)
                (fillBuffer (m_scalef s) xs (nat (m_fftBufferFill s)) (m_fftBuffer s)))"
    and half: "halfSize = nat (m_fftSize (m_settings s) div 2)"
    and pw: "binPower = (\<lambda>k. Re (fftOut ! k) * Re (fftOut ! k) + Im (fftOut ! k) * Im (fftOut ! k))"
    and sh: "shown = (\<lambda>k. if m_linear (m_settings s) then binPower k / m_powFFTDiv s
                          else 10 / log 2 10 * log 2 (binPower k) + m_ofs s)"
    and defined: "if m_linear (m_settings s) then m_powFFTDiv s \<noteq> 0
                  else \<forall>k. k < halfSize \<or> \<not> positiveOnly \<and> k < 2 * halfSize \<longrightarrow> 0 < binPower k"
  shows "\<exists>s'. feed E xs positiveOnly s = Some (Inr s')
     \<and> displayFrames (calls s')
         = displayFrames (calls s) @ [(m_powerSpectrum s', m_fftSize (m_settings s))]
     \<and> (\<forall>i<halfSize.
           (positiveOnly \<longrightarrow>
              m_powerSpectrum s' ! (i * 2) = shown i
            \<and> m_powerSpectrum s' ! (i * 2 + 1) = shown i)
         \<and> (\<not> positiveOnly \<longrightarrow>
              m_powerSpectrum s' ! i = shown (i + halfSize)
            \<and> m_powerSpectrum s' ! (i + halfSize) = shown i))"
proof -
  define st where "st = s\<lparr>m_fftBuffer :=
      fillBuffer (m_scalef s) xs (nat (m_fftBufferFill s)) (m_fftBuffer s)\<rparr>"
  have conv: "toDisplay st (magsq (fftOut ! k)) = shown k" for k
    by (simp add: st_def toDisplay_def magsq_def m_mult_def sh pw)
  have room: "halfSize + halfSize \<le> length (m_powerSpectrum s)" "2 * halfSize \<le> length (m_powerSpectrum s)"
    using ps half by linarith+
  have written: "\<forall>i<halfSize.
           (positiveOnly \<longrightarrow>
              extracted st fftOut positiveOnly ! (i * 2) = shown i
            \<and> extracted st fftOut positiveOnly ! (i * 2 + 1) = shown i)
         \<and> (\<not> positiveOnly \<longrightarrow>
              extracted st fftOut positiveOnly ! i = shown (i + halfSize)
            \<and> extracted st fftOut positiveOnly ! (i + halfSize) = shown i)"
  proof (intro allI impI conjI)
    fix i
    assume i: "i < halfSize" and p: positiveOnly
    have hs: "nat (m_fftSize (m_settings st) div 2) = halfSize" "m_powerSpectrum st = m_powerSpectrum s"
      by (simp_all add: st_def half)
    from doubled_written [OF room(2) i, of shown] p
    show "extracted st fftOut positiveOnly ! (i * 2) = shown i"
      and "extracted st fftOut positiveOnly ! (i * 2 + 1) = shown i"
      by (simp_all add: extracted_def hs conv)
  next
    fix i
    assume i: "i < halfSize" and p: "\<not> positiveOnly"
    have hs: "nat (m_fftSize (m_settings st) div 2) = halfSize" "m_powerSpectrum st = m_powerSpectrum s"
      by (simp_all add: st_def half)
    from shifted_written [OF order_refl room(1) i, of "\<lambda>i. shown (i + halfSize)" shown] p
    show "extracted st fftOut positiveOnly ! i = shown (i + halfSize)"
      and "extracted st fftOut positiveOnly ! (i + halfSize) = shown i"
      by (simp_all add: extracted_def hs conv)
  qed
  define s' where "s' = (publish (st\<lparr>m_powerSpectrum := extracted st fftOut positiveOnly\<rparr>))
          \<lparr>m_fftBuffer := advance (nat (m_refillSize st)) (m_fftBuffer st),
           m_fftBufferFill := m_overlapSize st,
           m_needMoreSamples := False\<rparr>"
  have out': "transform E engine (FFTWindow_apply (m_window st) (m_fftBuffer st)) = fftOut"
    by (simp add: out st_def)
  have returns: "feed E xs positiveOnly s = Some (Inr s')"
    unfolding s'_def out' [symmetric]
    by (rule feed_completing_chunk [OF run mode eng fill buf len st_def])
  have spectrum: "m_powerSpectrum s' = extracted st fftOut positiveOnly"
    by (simp add: s'_def publish_keeps)
  have frames: "displayFrames (calls s')
      = displayFrames (calls s) @ [(m_powerSpectrum s', m_fftSize (m_settings s))]"
    using run(2) by (simp add: s'_def publish_display publish_keeps st_def)
  from returns frames written show ?thesis
    unfolding spectrum [symmetric] by blast
qed

text \<open>
  The worked example, with the linear flag set and the divisor \<open>64\<^sup>2 = 4096\<close>. With
  \<open>positiveOnly\<close> clear, positions 0 and 1 hold the powers of bins 32 and 33,
  \<open>(32\<^sup>2 + 1) / 4096\<close> and \<open>(33\<^sup>2 + 1) / 4096\<close>, and positions 32 and 33 those of bins 0 and
  1, \<open>1 / 4096\<close> and \<open>2 / 4096\<close>. With \<open>positiveOnly\<close> set, positions 2 and 3 both hold the
  power of bin 1 and positions 62 and 63 that of bin 31, \<open>(31\<^sup>2 + 1) / 4096\<close>.
\<close>

theorem feed_reorders_bins_witness:
  "\<exists>s' t'.
       feed exampleCollaborators (map (\<lambda>k. Sample (int k) 1) [0..<64]) False exampleVis = Some (Inr s')
     \<and> displayFrames (calls s') = [(m_powerSpectrum s', 64)]
     \<and> m_powerSpectrum s' ! 0 = 1025 / 4096 \<and> m_powerSpectrum s' ! 1 = 1090 / 4096
     \<and> m_powerSpectrum s' ! 32 = 1 / 4096 \<and> m_powerSpectrum s' ! 33 = 2 / 4096
     \<and> feed exampleCollaborators (map (\<lambda>k. Sample (int k) 1) [0..<64]) True exampleVis = Some (Inr t')
     \<and> m_powerSpectrum t' ! 2 = 2 / 4096 \<and> m_powerSpectrum t' ! 3 = 2 / 4096
     \<and> m_powerSpectrum t' ! 62 = 962 / 4096 \<and> m_powerSpectrum t' ! 63 = 962 / 4096"
proof -
  let ?xs = "map (\<lambda>k. Sample (int k) 1) [0..<64]"
  define fftOut where "fftOut = transform exampleCollaborators 7
      (FFTWindow_apply (m_window exampleVis)
         (fillBuffer (m_scalef exampleVis) ?xs (nat (m_fftBufferFill exampleVis)) (m_fftBuffer exampleVis)))"
  define binPower where
    "binPower = (\<lambda>k. Re (fftOut ! k) * Re (fftOut ! k) + Im (fftOut ! k) * Im (fftOut ! k))"
  define shown where
    "shown = (\<lambda>k. if m_linear (m_settings exampleVis) then binPower k / m_powFFTDiv exampleVis
                   else 10 / log 2 10 * log 2 (binPower k) + m_ofs exampleVis)"
  have hyps: "m_running exampleVis" "m_glSpectrum exampleVis" "\<not> m_mutex exampleVis"
    "m_averagingMode (m_settings exampleVis) = AvgModeNone"
    "m_fft exampleVis = Some 7"
    "0 \<le> m_fftBufferFill exampleVis" "m_fftBufferFill exampleVis < m_refillSize exampleVis"
    "m_refillSize exampleVis \<le> int (length (m_fftBuffer exampleVis))"
    "length (m_fftBuffer exampleVis) = 4096"
    "int (length ?xs) = m_refillSize exampleVis - m_fftBufferFill exampleVis"
    "m_fftSize (m_settings exampleVis) \<le> int (length (m_powerSpectrum exampleVis))"
    by (simp_all add: exampleVis_fields exampleSettings_def)
  have defined: "if m_linear (m_settings exampleVis) then m_powFFTDiv exampleVis \<noteq> 0
      else \<forall>k. k < nat (m_fftSize (m_settings exampleVis) div 2)
                 \<or> \<not> p \<and> k < 2 * nat (m_fftSize (m_settings exampleVis) div 2) \<longrightarrow> 0 < binPower k" for p
    by (simp add: exampleVis_fields exampleSettings_def)
  have out: "fftOut ! k = Complex (real k) 1" if "k < 64" for k
    unfolding fftOut_def using exampleOut [OF that] by (simp add: exampleVis_fields)
  have shown: "shown k = (real k * real k + 1) / 4096" if "k < 64" for k
    unfolding shown_def binPower_def out [OF that]
    by (simp add: exampleVis_fields exampleSettings_def)
  from feed_reorders_bins [where E = exampleCollaborators and positiveOnly = False,
      OF hyps fftOut_def refl binPower_def shown_def defined]
  obtain s' where s': "feed exampleCollaborators ?xs False exampleVis = Some (Inr s')"
    "displayFrames (calls s') = [(m_powerSpectrum s', 64)]"
    and shifted: "\<And>i. i < 32 \<Longrightarrow> m_powerSpectrum s' ! i = shown (i + 32)
                                 \<and> m_powerSpectrum s' ! (i + 32) = shown i"
    by (auto simp: exampleVis_fields exampleSettings_def)
  from feed_reorders_bins [where E = exampleCollaborators and positiveOnly = True,
      OF hyps fftOut_def refl binPower_def shown_def defined]
  obtain t' where t': "feed exampleCollaborators ?xs True exampleVis = Some (Inr t')"
    and doubled: "\<And>i. i < 32 \<Longrightarrow> m_powerSpectrum t' ! (i * 2) = shown i
                                 \<and> m_powerSpectrum t' ! (i * 2 + 1) = shown i"
    by (auto simp: exampleVis_fields exampleSettings_def)
  have "m_powerSpectrum s' ! 0 = 1025 / 4096" "m_powerSpectrum s' ! 1 = 1090 / 4096"
    "m_powerSpectrum s' ! 32 = 1 / 4096" "m_powerSpectrum s' ! 33 = 2 / 4096"
    using shifted [of 0] shifted [of 1] shown [of 32] shown [of 33] shown [of 0] shown [of 1]
    by simp_all
  moreover have "m_powerSpectrum t' ! 2 = 2 / 4096" "m_powerSpectrum t' ! 3 = 2 / 4096"
    "m_powerSpectrum t' ! 62 = 962 / 4096" "m_powerSpectrum t' ! 63 = 962 / 4096"
    using doubled [of 1] doubled [of 31] shown [of 1] shown [of 31]
    by simp_all
  ultimately show ?thesis
    using s' t' by blast
qed

section \<open>Properties of the per-bin feed\<close>

text \<open>
  In every averaging mode the loop reads the input only through the test \<open>i < length\<close>:
  padding the input with zero samples up to the FFT size, or cutting it there, changes
  nothing.
\<close>

lemma binDirect_padded:
  assumes "i < n"
  shows "binDirect E ((take n bins @ replicate (n - length bins) (Complex 0 0))) i = binDirect E bins i"
proof -
  have "(if i < length ((take n bins @ replicate (n - length bins) (Complex 0 0)))
         then (take n bins @ replicate (n - length bins) (Complex 0 0)) ! i else Complex 0 0)
      = (if i < length bins then bins ! i else Complex 0 0)"
    using assms by (auto simp: nth_append min_def)
  then show ?thesis
    by (simp add: binDirect_def fun_eq_iff)
qed

lemma feed_complex_padded:
  "feed_complex E (take (nat (m_fftSize (m_settings s))) bins
                     @ replicate (nat (m_fftSize (m_settings s)) - length bins) (Complex 0 0)) s
     = feed_complex E bins s"
proof -
  have "fold (binDirect E (take (nat (m_fftSize (m_settings s))) bins
                     @ replicate (nat (m_fftSize (m_settings s)) - length bins) (Complex 0 0)))
          [0..<nat (m_fftSize (m_settings s))] s
      = fold (binDirect E bins) [0..<nat (m_fftSize (m_settings s))] s"
    by (intro fold_cong refl) (simp add: binDirect_padded)
  then show ?thesis
    by (simp add: feed_complex_def)
qed

text \<open>What the per-bin feed publishes without averaging and with the linear flag set.\<close>

lemma feed_complex_none_linear:
  assumes sink: "m_glSpectrum s" and lock: "\<not> m_mutex s"
    and mode: "m_averagingMode (m_settings s) = AvgModeNone"
    and lin: "m_linear (m_settings s)"
    and div: "m_powFFTDiv s \<noteq> 0"
    and ps: "m_fftSize (m_settings s) \<le> int (length (m_powerSpectrum s))"
  shows "displayFrames (calls (feed_complex E bins s))
           = displayFrames (calls s)
               @ [(m_powerSpectrum (feed_complex E bins s), m_fftSize (m_settings s))]
       \<and> (\<forall>i. int i < m_fftSize (m_settings s) \<longrightarrow>
             m_powerSpectrum (feed_complex E bins s) ! i
               = magsq (if i < length bins then bins ! i else Complex 0 0) / m_powFFTDiv s)
       \<and> (\<forall>i. length bins \<le> i \<and> int i < m_fftSize (m_settings s) \<longrightarrow>
             m_powerSpectrum (feed_complex E bins s) ! i = 0)
       \<and> (\<forall>j. m_fftSize (m_settings s) \<le> int j \<longrightarrow>
             m_powerSpectrum (feed_complex E bins s) ! j = m_powerSpectrum s ! j)"
proof -
  define n where "n = nat (m_fftSize (m_settings s))"
  define a where "a = (\<lambda>i. toDisplay s (magsq (if i < length bins then bins ! i else Complex 0 0)))"
  define ps' where "ps' = fold (\<lambda>i ps. ps[i := a i]) [0..<n] (m_powerSpectrum s)"
  have eq: "feed_complex E bins s = publish (s\<lparr>m_powerSpectrum := ps'\<rparr>)"
    using sink lock mode
    by (simp add: feed_complex_def fold_binDirect_none publishByMode_def ps'_def a_def n_def)
  have spectrum: "m_powerSpectrum (feed_complex E bins s) = ps'"
    by (simp add: eq publish_keeps)
  have frames: "displayFrames (calls (feed_complex E bins s))
           = displayFrames (calls s) @ [(ps', m_fftSize (m_settings s))]"
    using sink by (simp add: eq publish_display)
  have room: "n \<le> length (m_powerSpectrum s)"
    using ps by (simp add: n_def)
  have written: "ps' ! i = a i" if "int i < m_fftSize (m_settings s)" for i
    unfolding ps'_def using room that by (intro direct_written) (simp_all add: n_def)
  have lina: "a i = magsq (if i < length bins then bins ! i else Complex 0 0) / m_powFFTDiv s" for i
    using lin by (simp add: a_def toDisplay_def)
  have zero: "a i = 0" if "length bins \<le> i" for i
    using that by (simp add: lina magsq_def)
  have untouched: "ps' ! j = m_powerSpectrum s ! j" if "m_fftSize (m_settings s) \<le> int j" for j
    unfolding ps'_def using that by (intro direct_untouched) (simp add: n_def)
  have w: "ps' ! i = magsq (if i < length bins then bins ! i else Complex 0 0) / m_powFFTDiv s"
    if "int i < m_fftSize (m_settings s)" for i
    using written [OF that] lina [of i] by simp
  have z: "ps' ! i = 0" if "length bins \<le> i \<and> int i < m_fftSize (m_settings s)" for i
    using written [of i] zero [of i] that by simp
  show ?thesis
    unfolding spectrum using frames w z untouched by blast
qed

text \<open>
  Claim C10. The overload of \<open>feed\<close> that takes a pointer and a length. In every averaging
  mode the input counts for the FFT size and no more, whatever the length is: the call
  does what it does for the input cut at the FFT size and padded with zero samples up to
  it. In the branch without averaging that the claim cites, with a display sink attached
  and the lock free, it publishes one frame; every position below the FFT size is written,
  with the power of the bin when the index is below the length and with the power of the
  zero sample otherwise, and no position from the FFT size on is touched. With the linear
  flag set the published value at a position from the length on is therefore 0 (the
  divisor \<open>m_powFFTDiv\<close> is the squared FFT size after any configuration, so it is not
  zero).
\<close>

theorem feed_complex_pads_with_zero:
  "feed_complex E bins s
     = feed_complex E (take (nat (m_fftSize (m_settings s))) bins
                        @ replicate (nat (m_fftSize (m_settings s)) - length bins) (Complex 0 0)) s
   \<and> (m_glSpectrum s \<and> \<not> m_mutex s
        \<and> m_averagingMode (m_settings s) = AvgModeNone
        \<and> m_linear (m_settings s)
        \<and> m_powFFTDiv s \<noteq> 0
        \<and> m_fftSize (m_settings s) \<le> int (length (m_powerSpectrum s)) \<longrightarrow>
          displayFrames (calls (feed_complex E bins s))
            = displayFrames (calls s)
                @ [(m_powerSpectrum (feed_complex E bins s), m_fftSize (m_settings s))]
        \<and> (\<forall>i. int i < m_fftSize (m_settings s) \<longrightarrow>
              m_powerSpectrum (feed_complex E bins s) ! i
                = magsq (if i < length bins then bins ! i else Complex 0 0) / m_powFFTDiv s)
        \<and> (\<forall>i. length bins \<le> i \<and> int i < m_fftSize (m_settings s) \<longrightarrow>
              m_powerSpectrum (feed_complex E bins s) ! i = 0)
        \<and> (\<forall>j. m_fftSize (m_settings s) \<le> int j \<longrightarrow>
              m_powerSpectrum (feed_complex E bins s) ! j = m_powerSpectrum s ! j))"
proof (rule conjI)
  show "feed_complex E bins s
     = feed_complex E (take (nat (m_fftSize (m_settings s))) bins
                        @ replicate (nat (m_fftSize (m_settings s)) - length bins) (Complex 0 0)) s"
    by (rule feed_complex_padded [symmetric])
  show "m_glSpectrum s \<and> \<not> m_mutex s
        \<and> m_averagingMode (m_settings s) = AvgModeNone
        \<and> m_linear (m_settings s)
        \<and> m_powFFTDiv s \<noteq> 0
        \<and> m_fftSize (m_settings s) \<le> int (length (m_powerSpectrum s)) \<longrightarrow>
          displayFrames (calls (feed_complex E bins s))
            = displayFrames (calls s)
                @ [(m_powerSpectrum (feed_complex E bins s), m_fftSize (m_settings s))]
        \<and> (\<forall>i. int i < m_fftSize (m_settings s) \<longrightarrow>
              m_powerSpectrum (feed_complex E bins s) ! i
                = magsq (if i < length bins then bins ! i else Complex 0 0) / m_powFFTDiv s)
        \<and> (\<forall>i. length bins \<le> i \<and> int i < m_fftSize (m_settings s) \<longrightarrow>
              m_powerSpectrum (feed_complex E bins s) ! i = 0)
        \<and> (\<forall>j. m_fftSize (m_settings s) \<le> int j \<longrightarrow>
              m_powerSpectrum (feed_complex E bins s) ! j = m_powerSpectrum s ! j)"
    by (rule impI, elim conjE, rule feed_complex_none_linear)
qed

text \<open>
  The example pipeline fed with two bins: position 0 holds 25 / 4096, positions 2 and 63
  hold 0, and one frame is published.
\<close>

theorem feed_complex_pads_with_zero_witness:
  "m_powerSpectrum (feed_complex exampleCollaborators [Complex 3 4, Complex 1 0] exampleVis) ! 0
     = 25 / 4096
   \<and> m_powerSpectrum (feed_complex exampleCollaborators [Complex 3 4, Complex 1 0] exampleVis) ! 2 = 0
   \<and> m_powerSpectrum (feed_complex exampleCollaborators [Complex 3 4, Complex 1 0] exampleVis) ! 63 = 0
   \<and> length (displayFrames
        (calls (feed_complex exampleCollaborators [Complex 3 4, Complex 1 0] exampleVis))) = 1"
proof -
  have hyps: "m_glSpectrum exampleVis \<and> \<not> m_mutex exampleVis
    \<and> m_averagingMode (m_settings exampleVis) = AvgModeNone
    \<and> m_linear (m_settings exampleVis)
    \<and> m_powFFTDiv exampleVis \<noteq> 0
    \<and> m_fftSize (m_settings exampleVis) \<le> int (length (m_powerSpectrum exampleVis))"
    by (simp add: exampleVis_fields exampleSettings_def)
  have size: "m_fftSize (m_settings exampleVis) = 64"
    by (simp add: exampleVis_fields exampleSettings_def)
  from feed_complex_pads_with_zero [of exampleCollaborators "[Complex 3 4, Complex 1 0]" exampleVis] hyps
  have frames: "displayFrames (calls (feed_complex exampleCollaborators [Complex 3 4, Complex 1 0] exampleVis))
           = displayFrames (calls exampleVis)
               @ [(m_powerSpectrum (feed_complex exampleCollaborators [Complex 3 4, Complex 1 0] exampleVis), 64)]"
    and written: "\<And>i. int i < 64 \<Longrightarrow>
             m_powerSpectrum (feed_complex exampleCollaborators [Complex 3 4, Complex 1 0] exampleVis) ! i
               = magsq (if i < length [Complex 3 4, Complex 1 0] then [Complex 3 4, Complex 1 0] ! i else Complex 0 0)
                   / m_powFFTDiv exampleVis"
    and zero: "\<And>i. length [Complex 3 4, Complex 1 0] \<le> i \<and> int i < 64 \<Longrightarrow>
             m_powerSpectrum (feed_complex exampleCollaborators [Complex 3 4, Complex 1 0] exampleVis) ! i = 0"
    unfolding size by blast+
  from frames written [of 0] zero [of 2] zero [of 63] show ?thesis
    by (simp add: exampleVis_fields magsq_def)
qed

section \<open>Properties of the filter synthesis\<close>

subsection \<open>Rounding to \<^verbatim>\<open>float\<close>\<close>

lemma roundEven_of_int [simp]: "roundEven (real_of_int k) = k"
  by (simp add: roundEven_def)

lemma roundEven_error: "\<bar>real_of_int (roundEven y) - y\<bar> \<le> 1 / 2"
  unfolding roundEven_def Let_def by (auto; linarith)

lemma roundEven_pos: "1 \<le> y \<Longrightarrow> 1 \<le> roundEven y"
  unfolding roundEven_def Let_def by (auto; linarith)

lemma to_float_zero [simp]: "to_float 0 = 0"
  by (simp add: to_float_def)

lemma exponent_bracket:
  assumes "x \<noteq> 0"
  shows "2 powi \<lfloor>log 2 \<bar>x\<bar>\<rfloor> \<le> \<bar>x\<bar>" "\<bar>x\<bar> < 2 powi (\<lfloor>log 2 \<bar>x\<bar>\<rfloor> + 1)"
proof -
  from assms have pos: "0 < \<bar>x\<bar>"
    by simp
  have "2 powr real_of_int \<lfloor>log 2 \<bar>x\<bar>\<rfloor> \<le> \<bar>x\<bar> \<and> \<bar>x\<bar> < 2 powr (real_of_int \<lfloor>log 2 \<bar>x\<bar>\<rfloor> + 1)"
    using floor_log_eq_powr_iff [OF pos, of 2 "\<lfloor>log 2 \<bar>x\<bar>\<rfloor>"] by simp
  moreover have "(2::real) powr real_of_int k = 2 powi k" for k
    by (intro powr_real_of_int') simp_all
  moreover have "real_of_int \<lfloor>log 2 \<bar>x\<bar>\<rfloor> + 1 = real_of_int (\<lfloor>log 2 \<bar>x\<bar>\<rfloor> + 1)"
    by simp
  ultimately show "2 powi \<lfloor>log 2 \<bar>x\<bar>\<rfloor> \<le> \<bar>x\<bar>" "\<bar>x\<bar> < 2 powi (\<lfloor>log 2 \<bar>x\<bar>\<rfloor> + 1)"
    by metis+
qed

lemma significand_bracket:
  assumes "x \<noteq> 0"
  shows "2 ^ 23 \<le> \<bar>x\<bar> / 2 powi (\<lfloor>log 2 \<bar>x\<bar>\<rfloor> - 23)" "\<bar>x\<bar> / 2 powi (\<lfloor>log 2 \<bar>x\<bar>\<rfloor> - 23) < 2 ^ 24"
proof -
  define k where "k = \<lfloor>log 2 \<bar>x\<bar>\<rfloor>"
  have e: "(2::real) powi (k - 23) = 2 powi k / 2 ^ 23"
    by (simp add: power_int_diff)
  have up: "(2::real) powi (k + 1) = 2 powi k * 2"
    by (simp add: power_int_add)
  have pos: "(0::real) < 2 powi k"
    by simp
  from exponent_bracket [OF assms] have "2 powi k \<le> \<bar>x\<bar>" "\<bar>x\<bar> < 2 powi k * 2"
    by (simp_all add: k_def [symmetric] up)
  with pos show "2 ^ 23 \<le> \<bar>x\<bar> / 2 powi (\<lfloor>log 2 \<bar>x\<bar>\<rfloor> - 23)" "\<bar>x\<bar> / 2 powi (\<lfloor>log 2 \<bar>x\<bar>\<rfloor> - 23) < 2 ^ 24"
    unfolding k_def [symmetric] e by (simp_all add: field_simps)
qed

lemma to_float_pos:
  assumes "0 < x"
  shows "0 < to_float x"
proof -
  define e where "e = \<lfloor>log 2 \<bar>x\<bar>\<rfloor> - 23"
  have "2 ^ 23 \<le> \<bar>x\<bar> / 2 powi e"
    unfolding e_def using assms by (intro significand_bracket) simp
  moreover have "\<bar>x\<bar> = x"
    using assms by simp
  moreover have "(1::real) \<le> 2 ^ 23"
    by simp
  ultimately have "1 \<le> x / 2 powi e"
    by (metis order_trans)
  then have "1 \<le> roundEven (x / 2 powi e)"
    by (rule roundEven_pos)
  then have "0 < real_of_int (roundEven (x / 2 powi e)) * 2 powi e"
    by simp
  with assms show ?thesis
    by (simp add: to_float_def e_def Let_def)
qed

lemma to_float_nonneg: "0 \<le> x \<Longrightarrow> 0 \<le> to_float x"
  using to_float_pos [of x] by (cases "x = 0") simp_all

lemma to_float_error: "\<bar>to_float x - x\<bar> \<le> \<bar>x\<bar> / 2 ^ 24"
proof (cases "x = 0")
  case True
  then show ?thesis by simp
next
  case False
  define e where "e = \<lfloor>log 2 \<bar>x\<bar>\<rfloor> - 23"
  define y where "y = x / 2 powi e"
  have pos: "(0::real) < 2 powi e"
    by simp
  have x: "x = y * 2 powi e"
    by (simp add: y_def)
  have "\<bar>y\<bar> = \<bar>x\<bar> / 2 powi e"
    by (simp add: y_def)
  with significand_bracket(1) [OF False] have big: "2 ^ 23 \<le> \<bar>y\<bar>"
    by (simp add: e_def)
  have tf: "to_float x = real_of_int (roundEven y) * 2 powi e"
    using False by (simp add: to_float_def e_def Let_def y_def)
  have "to_float x - x = (real_of_int (roundEven y) - y) * 2 powi e"
    unfolding tf by (subst x) (simp add: algebra_simps)
  then have "\<bar>to_float x - x\<bar> = \<bar>real_of_int (roundEven y) - y\<bar> * 2 powi e"
    by (simp add: abs_mult)
  also have "\<dots> \<le> 1 / 2 * 2 powi e"
    using roundEven_error [of y] pos by (intro mult_right_mono) simp_all
  also have "\<dots> \<le> \<bar>y\<bar> / 2 ^ 24 * 2 powi e"
    using big pos by (intro mult_right_mono) simp_all
  also have "\<dots> = \<bar>x\<bar> / 2 ^ 24"
    by (simp add: x abs_mult)
  finally show ?thesis .
qed


lemma to_float_exact:
  assumes "\<bar>k\<bar> < 2 ^ 24"
  shows "to_float (real_of_int k * 2 powi j) = real_of_int k * 2 powi j"
proof (cases "k = 0")
  case True
  then show ?thesis by simp
next
  case False
  define x where "x = real_of_int k * 2 powi j"
  define e where "e = \<lfloor>log 2 \<bar>x\<bar>\<rfloor> - 23"
  have nz: "x \<noteq> 0"
    using False by (simp add: x_def)
  have "\<bar>x\<bar> = real_of_int \<bar>k\<bar> * 2 powi j"
    by (simp add: x_def abs_mult)
  also have "\<dots> < 2 ^ 24 * 2 powi j"
    using assms by (intro mult_strict_right_mono) (simp_all add: of_int_less_iff [symmetric, where 'a = real] del: of_int_less_iff)
  also have "\<dots> = 2 powi (j + 24)"
    by (simp add: power_int_add)
  finally have "2 powi \<lfloor>log 2 \<bar>x\<bar>\<rfloor> < (2::real) powi (j + 24)"
    using exponent_bracket(1) [OF nz] by simp
  moreover have "(2::real) powi (j + 24) \<le> 2 powi \<lfloor>log 2 \<bar>x\<bar>\<rfloor>" if "j + 24 \<le> \<lfloor>log 2 \<bar>x\<bar>\<rfloor>"
    using that by (intro power_int_increasing) simp_all
  ultimately have "\<lfloor>log 2 \<bar>x\<bar>\<rfloor> < j + 24"
    by fastforce
  then have le: "e \<le> j"
    by (simp add: e_def)
  have "x / 2 powi e = real_of_int k * 2 powi (j - e)"
    by (simp add: x_def power_int_diff)
  also have "\<dots> = real_of_int (k * 2 ^ nat (j - e))"
    using le by (simp add: power_int_nonneg_exp)
  finally have "roundEven (x / 2 powi e) = k * 2 ^ nat (j - e)"
    by (simp only: roundEven_of_int)
  then have "real_of_int (roundEven (x / 2 powi e)) * 2 powi e = real_of_int k * 2 powi (j - e) * 2 powi e"
    using le by (simp add: power_int_nonneg_exp)
  also have "\<dots> = x"
    by (simp add: x_def power_int_diff)
  finally show ?thesis
    using nz by (simp add: to_float_def e_def Let_def x_def)
qed

lemma to_float_of_int: "\<bar>k\<bar> < 2 ^ 24 \<Longrightarrow> to_float (real_of_int k) = real_of_int k"
  using to_float_exact [of k 0] by simp

lemma to_float_values:
  "to_float 1 = 1" "to_float 2 = 2" "to_float 3 = 3" "to_float 4 = 4" "to_float 16 = 16"
  "to_float (1 / 2) = 1 / 2" "to_float (1 / 4) = 1 / 4" "to_float (1 / 8) = 1 / 8"
  using to_float_of_int [of 1] to_float_of_int [of 2] to_float_of_int [of 3]
    to_float_of_int [of 4] to_float_of_int [of 16]
    to_float_exact [of 1 "- 1"] to_float_exact [of 1 "- 2"] to_float_exact [of 1 "- 3"]
  by (simp_all add: power_int_minus)

subsection \<open>Structure of the arrays\<close>

lemma powerLaw_length [simp]:
  "length (snd (snd (fold (powerLawStep N DD R Pairs L ft ls) is st))) = length (snd (snd st))"
  by (induction "is" arbitrary: st) (simp_all add: powerLawStep_def Let_def split: prod.splits)

lemma powerLaw_keep:
  "i \<notin> set is \<Longrightarrow>
   snd (snd (fold (powerLawStep N DD R Pairs L ft ls) is st)) ! i = snd (snd st) ! i"
  by (induction "is" arbitrary: st) (auto simp: powerLawStep_def Let_def split: prod.splits)

lemma raisedCosine_length [simp]:
  "length (snd (snd (fold (raisedCosineStep N DD R Pairs L ls cs xs xi) is st)))
     = length (snd (snd st))"
  by (induction "is" arbitrary: st) (simp_all add: raisedCosineStep_def Let_def split: prod.splits)

lemma raisedCosine_keep:
  "i \<notin> set is \<Longrightarrow>
   snd (snd (fold (raisedCosineStep N DD R Pairs L ls cs xs xi) is st)) ! i = snd (snd st) ! i"
  by (induction "is" arbitrary: st) (auto simp: raisedCosineStep_def Let_def split: prod.splits)

lemma mirror_length [simp]:
  "length (snd (fold (mirrorStep u) is st)) = length (snd st)"
  by (induction "is" arbitrary: st) (simp_all add: mirrorStep_def split: prod.splits)

lemma mirror_keep:
  "i \<notin> set is \<Longrightarrow> snd (fold (mirrorStep u) is st) ! i = snd st ! i"
  by (induction "is" arbitrary: st) (auto simp: mirrorStep_def split: prod.splits)

lemma mirror_counter:
  "fst (fold (mirrorStep u) is st) = fst st + int (length is)"
  by (induction "is" arbitrary: st) (auto simp: mirrorStep_def split: prod.splits)

text \<open>What a mirroring loop that starts at index \<open>u\<close> with counter \<open>j0\<close> writes.\<close>

lemma mirror_written:
  assumes "1 \<le> j0" "j0 + int n \<le> int u + 1" "u + n \<le> length A" "t < n"
  shows "snd (fold (mirrorStep (int u)) [u..<u + n] (j0, A)) ! (u + t) = A ! nat (int u - j0 - int t)"
  using assms
proof (induction n)
  case 0
  then show ?case by simp
next
  case (Suc n)
  obtain j' A' where st: "fold (mirrorStep (int u)) [u..<u + n] (j0, A) = (j', A')"
    by (cases "fold (mirrorStep (int u)) [u..<u + n] (j0, A)")
  have cnt: "j' = j0 + int n"
    using mirror_counter [of "int u" "[u..<u + n]" "(j0, A)"] by (simp add: st)
  have len: "length A' = length A"
    using mirror_length [of "int u" "[u..<u + n]" "(j0, A)"] by (simp add: st)
  have low: "A' ! nat (int u - (j0 + int n)) = A ! nat (int u - (j0 + int n))"
    using Suc.prems mirror_keep [of "nat (int u - (j0 + int n))" "[u..<u + n]" "int u" "(j0, A)"]
    by (simp add: st)
  have step: "fold (mirrorStep (int u)) [u..<u + Suc n] (j0, A)
      = (j' + 1, A'[u + n := A' ! nat (int u - j')])"
    by (simp add: st mirrorStep_def)
  show ?case
  proof (cases "t = n")
    case True
    with Suc.prems cnt len low show ?thesis
      unfolding step by (simp add: algebra_simps)
  next
    case False
    with Suc.prems have "t < n" by simp
    with Suc have IH: "A' ! (u + t) = A ! nat (int u - j0 - int t)"
      by (simp add: st)
    with Suc.prems \<open>t < n\<close> len show ?thesis
      unfolding step by simp
  qed
qed

lemma uniqueHalf_length [simp]:
  "length (uniqueHalf N DD R Pairs runrate cicrate cutoff xtype xbw scale) = nat N"
  by (simp add: uniqueHalf_def Let_def)

lemma mirror_keeps_length [simp]: "length (mirror N A) = length A"
  by (simp add: mirror_def)

lemma mirror_unique_kept: "int k < u_samps N \<Longrightarrow> mirror N A ! k = A ! k"
  by (simp add: mirror_def mirror_keep)

text \<open>For even \<open>N\<close> the entry at \<open>N - 1 - k\<close> is the entry at \<open>k\<close> of the unique half.\<close>

lemma mirror_even:
  assumes even: "N mod 2 = 0" and len: "int (length A) = N" and k: "int k < N div 2"
  shows "mirror N A ! (nat N - 1 - k) = A ! k"
proof -
  define u where "u = nat (N div 2)"
  from even k have N: "N = 2 * int u" and ku: "k < u"
    by (auto simp: u_def)
  have us: "u_samps (2 * int u) = int u"
    by (simp add: u_samps_def)
  have "snd (fold (mirrorStep (int u)) [u..<u + u] (1, A)) ! (u + (u - 1 - k))
      = A ! nat (int u - 1 - int (u - 1 - k))"
    using len ku by (intro mirror_written) (simp_all add: N)
  moreover have "nat N - 1 - k = u + (u - 1 - k)" "nat N = u + u"
    using ku by (simp_all add: N)
  moreover have "nat (int u - 1 - int (u - 1 - k)) = k"
    using ku by simp
  ultimately show ?thesis
    by (simp add: mirror_def us N)
qed

lemma icfir_A_returns:
  assumes "0 \<le> N" "0 \<le> x_samps xbw runrate N + 1"
  shows "\<exists>A. icfir_A N DD R Pairs runrate cicrate cutoff xtype xbw scale = Inr A"
  using assms by (simp add: icfir_A_def)

lemma icfir_A_length:
  assumes "icfir_A N DD R Pairs runrate cicrate cutoff xtype xbw scale = Inr A"
  shows "int (length A) = N"
  using assms by (auto simp: icfir_A_def split: if_splits)

lemma icfir_A_even_entries:
  assumes "N mod 2 = 0" "icfir_A N DD R Pairs runrate cicrate cutoff xtype xbw scale = Inr A"
    and "int k < N div 2"
  shows "A ! (nat N - 1 - k) = A ! k"
proof -
  let ?U = "uniqueHalf N DD R Pairs runrate cicrate cutoff xtype xbw scale"
  from assms(2) have A: "A = mirror N ?U" and N: "0 \<le> N"
    by (auto simp: icfir_A_def split: if_splits)
  have "mirror N ?U ! (nat N - 1 - k) = ?U ! k"
    using assms(1,3) N by (intro mirror_even) simp_all
  moreover have "mirror N ?U ! k = ?U ! k"
    using assms(1,3) by (intro mirror_unique_kept) (simp add: u_samps_def)
  ultimately show ?thesis
    by (simp add: A)
qed

lemma fold_upt_split:
  "i < n \<Longrightarrow> fold f [0..<n] s = fold f [Suc i..<n] (f i (fold f [0..<i] s))"
  by (induction n) (auto simp: less_Suc_eq)

lemma powerLaw_ri:
  "fst (fold (powerLawStep N DD R Pairs L ft ls) is st) = fst st + real (length is)"
  by (induction "is" arbitrary: st) (auto simp: powerLawStep_def Let_def split: prod.splits)

lemma powerLawStep_apply:
  "powerLawStep N DD R Pairs L ft ls i (ri, mag, A) =
     (if ri / (L * to_float (real_of_int N)) \<le> ft then
        (ri + 1, pow (inbandGain DD R (ri / (L * to_float (real_of_int N)))) Pairs * ls,
         A[i := to_float (pow (inbandGain DD R (ri / (L * to_float (real_of_int N)))) Pairs * ls)])
      else
        (ri + 1,
         mag * ((ft * ft * ft * ft)
                / (ri / (L * to_float (real_of_int N)) * (ri / (L * to_float (real_of_int N)))
                   * (ri / (L * to_float (real_of_int N))) * (ri / (L * to_float (real_of_int N))))),
         A[i := to_float (mag * ((ft * ft * ft * ft)
                / (ri / (L * to_float (real_of_int N)) * (ri / (L * to_float (real_of_int N)))
                   * (ri / (L * to_float (real_of_int N))) * (ri / (L * to_float (real_of_int N))))))]))"
  by (simp add: powerLawStep_def Let_def)

text \<open>The first entry written by the fourth-power loop when sample 0 is in band.\<close>

lemma powerLaw_first:
  assumes "0 < n" "n \<le> length A0" "ri0 / (L * to_float (real_of_int N)) \<le> ft"
  shows "snd (snd (fold (powerLawStep N DD R Pairs L ft ls) [0..<n] (ri0, m0, A0))) ! 0
     = to_float (pow (inbandGain DD R (ri0 / (L * to_float (real_of_int N)))) Pairs * ls)"
proof -
  let ?f = "powerLawStep N DD R Pairs L ft ls"
  have split: "fold ?f [0..<n] (ri0, m0, A0) = fold ?f [Suc 0..<n] (?f 0 (ri0, m0, A0))"
    using fold_upt_split [OF assms(1), of ?f "(ri0, m0, A0)"] by simp
  from assms have "0 < length A0"
    by linarith
  then show ?thesis
    unfolding split using assms
    by (subst powerLaw_keep) (simp_all add: powerLawStep_apply)
qed

lemma raisedCosineStep_apply:
  "raisedCosineStep N DD R Pairs L ls cs xs xi i (ri, mag, A) =
     (if int i < cs then
        (ri + 1, pow (inbandGain DD R (ri / (L * to_float (real_of_int N)))) Pairs * ls,
         A[i := to_float (pow (inbandGain DD R (ri / (L * to_float (real_of_int N)))) Pairs * ls)])
      else if cs \<le> int i \<and> int i \<le> cs + xs then
        (ri + 1, mag, A[i := to_float (mag * xi ! nat (int i - cs))])
      else (ri + 1, mag, A[i := 0]))"
  by (simp add: raisedCosineStep_def Let_def)

lemma raisedCosine_ri:
  "fst (fold (raisedCosineStep N DD R Pairs L ls cs xs xi) is st) = fst st + real (length is)"
  by (induction "is" arbitrary: st) (auto simp: raisedCosineStep_def Let_def split: prod.splits)


text \<open>An in-band entry is the magnitude of its sample, converted to \<^verbatim>\<open>float\<close>.\<close>

lemma raisedCosine_inband:
  assumes "int i < cs" "i < n" "n \<le> length A0"
  shows "snd (snd (fold (raisedCosineStep N DD R Pairs L ls cs xs xi) [0..<n] (ri0, m0, A0))) ! i
     = to_float (pow (inbandGain DD R ((ri0 + real i) / (L * to_float (real_of_int N)))) Pairs * ls)"
proof -
  let ?f = "raisedCosineStep N DD R Pairs L ls cs xs xi"
  obtain ri mag A where st: "fold ?f [0..<i] (ri0, m0, A0) = (ri, mag, A)"
    by (metis prod_cases3)
  have len: "length A = length A0"
    using raisedCosine_length [of N DD R Pairs L ls cs xs xi "[0..<i]" "(ri0, m0, A0)"]
    by (simp add: st)
  have ri: "ri = ri0 + real i"
    using raisedCosine_ri [of N DD R Pairs L ls cs xs xi "[0..<i]" "(ri0, m0, A0)"]
    by (simp add: st)
  have split: "fold ?f [0..<n] (ri0, m0, A0) = fold ?f [Suc i..<n] (?f i (ri, mag, A))"
    using fold_upt_split [OF assms(2), of ?f "(ri0, m0, A0)"] by (simp add: st)
  show ?thesis
    unfolding split using assms len
    by (subst raisedCosine_keep) (simp_all add: raisedCosineStep_apply ri)
qed







lemma sin_double_less:
  fixes y :: real
  assumes "0 < y" "y < pi / 2"
  shows "sin (2 * y) < 2 * sin y"
proof -
  have "0 < sin y"
    using assms by (intro sin_gt_zero) simp_all
  moreover have "cos y < cos 0"
    using assms by (intro cos_monotone_0_pi) simp_all
  ultimately have "sin y * cos y < sin y * 1"
    by (intro mult_strict_left_mono) simp_all
  then show ?thesis
    by (simp add: sin_double)
qed

lemma sin_eightfold_less:
  fixes y :: real
  assumes "0 < y" "y < pi / 8"
  shows "sin (8 * y) < 8 * sin y"
proof -
  have "sin (2 * (4 * y)) < 2 * sin (4 * y)"
    using assms by (intro sin_double_less) simp_all
  moreover have "sin (2 * (2 * y)) < 2 * sin (2 * y)"
    using assms by (intro sin_double_less) simp_all
  moreover have "sin (2 * y) < 2 * sin y"
    using assms by (intro sin_double_less) simp_all
  ultimately show ?thesis
    by simp
qed

text \<open>For a cutoff inside the band the peak gain of a CIC with \<open>DD = 1\<close>, \<open>R = 8\<close> exceeds 1.\<close>

lemma peakGain_1_8:
  assumes "0 < ft" "ft < 1"
  shows "peakGain 1 8 ft = 8 * sin (pi * ft / 8) / sin (pi * ft)" "1 < peakGain 1 8 ft"
proof -
  have pos: "0 < sin (pi * ft)"
    using assms by (intro sin_gt_zero) simp_all
  have pos8: "0 < sin (pi * ft / 8)"
    using assms by (intro sin_gt_zero) (simp_all add: field_simps)
  have "sin (8 * (pi * ft / 8)) < 8 * sin (pi * ft / 8)"
    using assms by (intro sin_eightfold_less) simp_all
  then have less: "sin (pi * ft) < 8 * sin (pi * ft / 8)"
    by simp
  show eq: "peakGain 1 8 ft = 8 * sin (pi * ft / 8) / sin (pi * ft)"
    using pos pos8 by (simp add: peakGain_def)
  show "1 < peakGain 1 8 ft"
    unfolding eq using pos less by simp
qed

lemma pow_one [simp]: "pow 1 n = 1"
  by (simp add: pow_def)

lemma trunc_nonneg: "0 \<le> x \<Longrightarrow> 0 \<le> trunc x"
  by (simp add: trunc_def)

lemma trunc_of_int [simp]: "trunc (real_of_int k) = k"
  by (simp add: trunc_def)

lemma trunc_zero [simp]: "trunc 0 = 0"
  by (simp add: trunc_def)

subsection \<open>The locals\<close>

lemma offset_odd: "N mod 2 = 1 \<Longrightarrow> offset N = 0"
proof -
  assume "N mod 2 = 1"
  then have "(N + 1) div 2 - N div 2 = 1"
    by presburger
  then show ?thesis
    by (simp add: offset_def to_float_values)
qed

lemma offset_even: "N mod 2 = 0 \<Longrightarrow> offset N = 0.5"
proof -
  assume "N mod 2 = 0"
  then have "(N + 1) div 2 - N div 2 = 0"
    by presburger
  then show ?thesis
    by (simp add: offset_def to_float_values)
qed

lemma x_samps_nonneg:
  assumes "0 \<le> N" "0 \<le> xbw" "0 < runrate"
  shows "0 \<le> x_samps xbw runrate N"
proof -
  have "0 \<le> xbw / runrate" "0 \<le> real_of_int N"
    using assms by simp_all
  then have "0 \<le> to_float (xbw / runrate)" "0 \<le> to_float (real_of_int N)"
    by (simp_all add: to_float_nonneg)
  then have "0 \<le> to_float (to_float (xbw / runrate) * to_float (real_of_int N))"
    by (simp add: to_float_nonneg)
  then show ?thesis
    unfolding x_samps_def by (rule trunc_nonneg)
qed

lemma c_samps_odd_pos:
  assumes "N mod 2 = 1" "0 \<le> N" "0 \<le> cutoff" "0 < runrate"
  shows "0 < c_samps cutoff runrate N"
proof -
  have "0 \<le> cutoff / runrate" "0 \<le> real_of_int N"
    using assms by simp_all
  then have "0 \<le> to_float (cutoff / runrate)" "0 \<le> to_float (real_of_int N)"
    by (simp_all add: to_float_nonneg)
  then have "0 \<le> to_float (to_float (cutoff / runrate) * to_float (real_of_int N))"
    by (simp add: to_float_nonneg)
  then have "0 \<le> trunc (to_float (to_float (cutoff / runrate) * to_float (real_of_int N)))"
    by (rule trunc_nonneg)
  moreover from assms(1) have "(N + 1) div 2 - N div 2 = 1"
    by presburger
  ultimately show ?thesis
    by (simp add: c_samps_def)
qed


lemma uniqueHalf_powerLaw:
  "uniqueHalf N DD R Pairs runrate cicrate cutoff 0 xbw scale =
     snd (snd (fold (powerLawStep N DD R Pairs (to_float (cicrate / runrate))
                       (to_float (cutoff / cicrate))
                       (local_scale DD R Pairs (to_float (cutoff / cicrate)) scale))
                 [0..<nat (u_samps N)] (offset N, 0, replicate (nat N) 0)))"
  by (simp add: uniqueHalf_def Let_def)

lemma icfir_A_entry_unique:
  assumes "icfir_A N DD R Pairs runrate cicrate cutoff xtype xbw scale = Inr A"
    and "int k < u_samps N"
  shows "A ! k = uniqueHalf N DD R Pairs runrate cicrate cutoff xtype xbw scale ! k"
  using assms by (auto simp: icfir_A_def mirror_unique_kept split: if_splits)

text \<open>
  For odd \<open>N\<close> the first sample sits at \<open>fn = 0\<close>; when it is in band its magnitude is the
  local scale, and the array holds that converted to \<^verbatim>\<open>float\<close>.
\<close>

lemma uniqueHalf_dc:
  assumes odd: "N mod 2 = 1" "0 \<le> N"
    and band: "xtype = 0 \<and> 0 \<le> to_float (cutoff / cicrate)
               \<or> xtype = 1 \<and> 0 < c_samps cutoff runrate N"
  shows "uniqueHalf N DD R Pairs runrate cicrate cutoff xtype xbw scale ! 0
     = to_float (local_scale DD R Pairs (to_float (cutoff / cicrate)) scale)"
proof -
  from odd have "0 < (N + 1) div 2" "(N + 1) div 2 \<le> N"
    by presburger+
  then have u: "0 < nat (u_samps N)" "nat (u_samps N) \<le> nat N"
    by (simp_all add: u_samps_def)
  from band show ?thesis
  proof
    assume "xtype = 0 \<and> 0 \<le> to_float (cutoff / cicrate)"
    with u show ?thesis
      unfolding uniqueHalf_def Let_def
      by (simp add: powerLaw_first offset_odd [OF odd(1)] inbandGain_def)
  next
    assume "xtype = 1 \<and> 0 < c_samps cutoff runrate N"
    with u show ?thesis
      unfolding uniqueHalf_def Let_def
      by (simp add: raisedCosine_inband offset_odd [OF odd(1)] inbandGain_def)
  qed
qed

lemma local_scale_1_8_4:
  assumes "0 < ft" "ft < 1"
  shows "local_scale 1 8 4 ft scale = scale / (8 * sin (pi * ft / 8) / sin (pi * ft)) ^ 4"
  by (simp add: local_scale_def pow_def peakGain_1_8(1) [OF assms])

text \<open>The first entry of the array for odd \<open>N\<close> and a positive cutoff.\<close>

lemma icfir_A_dc:
  assumes odd: "N mod 2 = 1" "0 \<le> N"
    and tr: "0 \<le> xbw"
    and rates: "0 < runrate" "0 < cicrate"
    and cut: "0 < cutoff"
    and xt: "xtype = 0 \<or> xtype = 1"
  shows "\<exists>A. icfir_A N DD R Pairs runrate cicrate cutoff xtype xbw scale = Inr A
     \<and> A ! 0 = to_float (local_scale DD R Pairs (to_float (cutoff / cicrate)) scale)"
proof -
  have xs: "0 \<le> x_samps xbw runrate N + 1"
    using x_samps_nonneg [OF odd(2) tr rates(1)] by simp
  have cs: "0 < c_samps cutoff runrate N"
    using odd cut rates by (intro c_samps_odd_pos) simp_all
  have ft: "0 \<le> to_float (cutoff / cicrate)"
    using cut rates by (intro to_float_nonneg) simp
  from odd have u: "int 0 < u_samps N"
    unfolding u_samps_def by presburger
  from icfir_A_returns [OF odd(2) xs]
  obtain A where A: "icfir_A N DD R Pairs runrate cicrate cutoff xtype xbw scale = Inr A"
    by blast
  have "A ! 0 = uniqueHalf N DD R Pairs runrate cicrate cutoff xtype xbw scale ! 0"
    using A u by (rule icfir_A_entry_unique)
  also have "\<dots> = to_float (local_scale DD R Pairs (to_float (cutoff / cicrate)) scale)"
    using odd xt cs ft by (intro uniqueHalf_dc) auto
  finally show ?thesis
    using A by blast
qed

subsection \<open>Worked examples\<close>

text \<open>
  A CIC with \<open>DD = 1\<close>, \<open>R = 8\<close> and 4 pairs, cutoff at a quarter of the CIC rate, scale 1:
  the local scale is positive and below 49/64. The peak gain \<open>8 sin (\<pi>/32) / sin (\<pi>/4)\<close>
  exceeds \<open>1 / cos (\<pi>/8)\<close>, and \<open>cos\<^sup>2 (\<pi>/8) = (1 + cos (\<pi>/4)) / 2\<close> is at most 7/8.
\<close>

lemma cos_pi_8: "0 < cos (pi / 8)" "(cos (pi / 8))\<^sup>2 \<le> 7 / 8"
proof -
  show "0 < cos (pi / 8)"
    by (intro cos_gt_zero) simp_all
  have "sqrt 2 \<le> 3 / 2"
    by (intro real_le_lsqrt) (simp_all add: power2_eq_square)
  moreover have "cos (2 * (pi / 8)) = 2 * (cos (pi / 8))\<^sup>2 - 1"
    by (rule cos_double_cos)
  moreover have "cos (2 * (pi / 8)) = sqrt 2 / 2"
    using cos_45 by simp
  ultimately show "(cos (pi / 8))\<^sup>2 \<le> 7 / 8"
    by simp
qed

lemma local_scale_quarter:
  "0 < local_scale 1 8 4 (1 / 4) 1" "local_scale 1 8 4 (1 / 4) 1 \<le> 49 / 64"
proof -
  define s where "s = sin (pi / 32)"
  define q where "q = sin (pi / 4)"
  define c where "c = cos (pi / 8)"
  have s: "0 < s" and q: "0 < q"
    unfolding s_def q_def by (intro sin_gt_zero; simp)+
  have c: "0 < c" "c\<^sup>2 \<le> 7 / 8"
    unfolding c_def by (rule cos_pi_8)+
  have "sin (2 * (2 * (pi / 32))) < 2 * sin (2 * (pi / 32))" "sin (2 * (pi / 32)) < 2 * sin (pi / 32)"
    by (intro sin_double_less; simp)+
  then have "sin (pi / 8) < 4 * s"
    by (simp add: s_def)
  moreover have "q = 2 * sin (pi / 8) * c"
    using sin_double [of "pi / 8"] by (simp add: q_def c_def)
  ultimately have "q < 8 * s * c"
    using c(1) by simp
  then have "q / (8 * s) < c"
    using s by (simp add: field_simps)
  moreover have "0 < q / (8 * s)"
    using s q by simp
  ultimately have "(q / (8 * s))\<^sup>2 \<le> c\<^sup>2"
    by (intro power_mono) simp_all
  with c(2) have r: "(q / (8 * s))\<^sup>2 \<le> 7 / 8"
    by simp
  have "0 \<le> (q / (8 * s))\<^sup>2"
    by simp
  with r have "((q / (8 * s))\<^sup>2)\<^sup>2 \<le> (7 / 8)\<^sup>2"
    by (intro power_mono)
  then have le: "(q / (8 * s)) ^ 4 \<le> 49 / 64"
    by (simp add: power2_eq_square power4_eq_xxxx)
  have ls: "local_scale 1 8 4 (1 / 4) 1 = (q / (8 * s)) ^ 4"
    using local_scale_1_8_4 [of "1 / 4" 1] by (simp add: s_def q_def power_divide)
  show "0 < local_scale 1 8 4 (1 / 4) 1"
    unfolding ls using s q by simp
  show "local_scale 1 8 4 (1 / 4) 1 \<le> 49 / 64"
    unfolding ls by (rule le)
qed

text \<open>A positive value below 49/64 does not round to 1.\<close>

lemma to_float_below_one:
  assumes "0 < x" "x \<le> 49 / 64"
  shows "to_float x < 1"
proof -
  have "to_float x \<le> x + \<bar>x\<bar> / 2 ^ 24"
    using to_float_error [of x] by linarith
  with assms show ?thesis
    by simp
qed

text \<open>Rounding keeps two positive values apart when one is 16/81 of the other.\<close>

lemma to_float_separates:
  assumes "0 < x"
  shows "to_float (x * (16 / 81)) < to_float x"
proof -
  have "to_float (x * (16 / 81)) \<le> x * (16 / 81) + \<bar>x * (16 / 81)\<bar> / 2 ^ 24"
    using to_float_error [of "x * (16 / 81)"] by linarith
  moreover have "x - \<bar>x\<bar> / 2 ^ 24 \<le> to_float x"
    using to_float_error [of x] by linarith
  ultimately show ?thesis
    using assms by simp
qed

text \<open>
  The worked example for even \<open>N\<close>: order 4, a CIC with \<open>DD = 1\<close>, \<open>R = 8\<close> and 4 pairs,
  both rates 48000, cutoff 12000, fourth-power rolloff, scale 1. The unique half has the
  in-band sample at \<open>fn = 1/8\<close> and the sample at \<open>fn = 3/8\<close> past the cutoff \<open>1/4\<close>, whose
  magnitude is 16/81 of the in-band one.
\<close>

lemma example4:
  assumes "icfir_A 4 1 8 4 48000 48000 12000 0 0 1 = Inr A"
  shows "A ! 3 = A ! 0" "A ! 2 = A ! 1" "A ! 1 < A ! 0"
proof -
  let ?U = "uniqueHalf 4 1 8 4 48000 48000 12000 0 0 1"
  let ?ls = "local_scale 1 8 4 (1 / 4) 1"
  define m0 where "m0 = pow (inbandGain 1 8 (1 / 8)) 4 * ?ls"
  from icfir_A_even_entries [OF _ assms, of 0] show "A ! 3 = A ! 0"
    by simp
  from icfir_A_even_entries [OF _ assms, of 1] show "A ! 2 = A ! 1"
    by simp
  have a0: "A ! 0 = ?U ! 0" and a1: "A ! 1 = ?U ! 1"
    using assms by (auto intro!: icfir_A_entry_unique simp: u_samps_def)
  have upt: "[0..<nat (u_samps 4)] = [0, 1]"
    by (simp add: u_samps_def upt_rec)
  have U: "?U = (replicate 4 0)[0 := to_float m0, 1 := to_float (m0 * (16 / 81))]"
    unfolding uniqueHalf_powerLaw upt
    by (simp add: powerLawStep_apply offset_even to_float_values m0_def)
  have "0 < sin (pi * (1 / 8))" "0 < sin (pi * (1 / 8) / 8)"
    by (intro sin_gt_zero; simp)+
  then have "0 < inbandGain 1 8 (1 / 8)"
    by (simp add: inbandGain_def)
  with local_scale_quarter(1) have "0 < m0"
    by (simp add: m0_def pow_def)
  then have "to_float (m0 * (16 / 81)) < to_float m0"
    by (rule to_float_separates)
  then show "A ! 1 < A ! 0"
    unfolding a0 a1 U by simp
qed




text \<open>
  Claim C1, as the code has it. For every even order \<open>N\<close> the function returns (given
  vector sizes that are not negative), the array has \<open>N\<close> entries, and each mirrored entry
  equals the entry of the unique half that the loop \<^verbatim>\<open>A[i] = A[u_samps - j]\<close> names, with
  \<open>j\<close> starting at 1: the entry at \<open>N - 1 - k\<close> equals the entry at \<open>k\<close> for every \<open>k\<close> below
  \<open>N / 2\<close>. So \<open>A[N-1] = A[0]\<close> and \<open>A[N-2] = A[1]\<close>.
\<close>

theorem icfir_A_even_symmetry:
  assumes "N mod 2 = 0" "0 \<le> N" "0 \<le> x_samps xbw runrate N + 1"
  shows "\<exists>A. icfir_A N DD R Pairs runrate cicrate cutoff xtype xbw scale = Inr A
     \<and> int (length A) = N
     \<and> (\<forall>k. int k < N div 2 \<longrightarrow> A ! (nat N - 1 - k) = A ! k)
     \<and> (2 \<le> N \<longrightarrow> A ! nat (N - 1) = A ! 0)
     \<and> (4 \<le> N \<longrightarrow> A ! nat (N - 2) = A ! 1)"
proof -
  from icfir_A_returns [OF assms(2,3)]
  obtain A where A: "icfir_A N DD R Pairs runrate cicrate cutoff xtype xbw scale = Inr A"
    by blast
  have sym: "A ! (nat N - 1 - k) = A ! k" if "int k < N div 2" for k
    using icfir_A_even_entries [OF assms(1) A that] .
  have "A ! nat (N - 1) = A ! 0" if "2 \<le> N"
  proof -
    from that have "int 0 < N div 2" "nat (N - 1) = nat N - 1 - 0"
      by simp_all
    with sym [of 0] show ?thesis
      by simp
  qed
  moreover have "A ! nat (N - 2) = A ! 1" if "4 \<le> N"
  proof -
    from that have "int 1 < N div 2" "nat (N - 2) = nat N - 1 - 1"
      by simp_all
    with sym [of 1] show ?thesis
      by simp
  qed
  ultimately show ?thesis
    using A icfir_A_length [OF A] sym by blast
qed

text \<open>
  For order 4 the array is \<open>[A0, A1, A1, A0]\<close>.
\<close>

theorem icfir_A_even_symmetry_witness:
  "\<exists>A. icfir_A 4 1 8 4 48000 48000 12000 0 0 1 = Inr A
     \<and> length A = 4 \<and> A ! 3 = A ! 0 \<and> A ! 2 = A ! 1"
  using icfir_A_even_symmetry [of 4 0 48000 1 8 4 48000 12000 0 1]
  by (auto simp: x_samps_def)

text \<open>
  The pairing of the claim as it is worded, \<open>A[N-1] = A[1]\<close>, fails for the same input:
  \<open>A[3]\<close> is the in-band value \<open>A[0]\<close>, and \<open>A[1]\<close>, which holds 16/81 of the in-band
  magnitude, is below it.
\<close>

theorem icfir_A_even_symmetry_counterexample:
  "case icfir_A 4 1 8 4 48000 48000 12000 0 0 1 of
     Inl e \<Rightarrow> False
   | Inr A \<Rightarrow> A ! (4 - 1) \<noteq> A ! 1"
proof -
  from icfir_A_returns [of 4 0 48000 1 8 4 48000 12000 0 1]
  obtain A where A: "icfir_A 4 1 8 4 48000 48000 12000 0 0 1 = Inr A"
    by (auto simp: x_samps_def)
  from example4 [OF A] have "A ! 3 \<noteq> A ! 1"
    by simp
  with A show ?thesis
    by simp
qed

text \<open>
  Claim C2, as the code has it. For \<open>DD = 1\<close>, \<open>R = 8\<close> and 4 pairs, odd \<open>N\<close>, positive
  rates, a positive cutoff whose normalized value \<open>ft\<close> (the \<^verbatim>\<open>float\<close> quotient of cutoff and
  CIC rate) is below 1, a transition width that is not negative and either transition type:
  the function returns, sample 0 is the one and only sample with \<open>fn = 0\<close> (for even \<open>N\<close>
  the half-sample offset leaves none), and the magnitude computed for it is 1 times the
  local scale, that is the scale passed in divided by the fourth power of the peak gain
  \<open>8 sin (\<pi> ft / 8) / sin (\<pi> ft)\<close> of the CIC at the cutoff (the normalisation by peak
  gain that precedes the first loop). \<open>A[0]\<close> holds that magnitude converted to
  \<^verbatim>\<open>float\<close>.
\<close>

theorem icfir_dc_magnitude:
  assumes odd: "N mod 2 = 1" "0 \<le> N"
    and tr: "0 \<le> xbw"
    and rates: "0 < runrate" "0 < cicrate"
    and cut: "0 < cutoff"
    and ft: "ft = to_float (cutoff / cicrate)" "ft < 1"
    and L: "L = to_float (cicrate / runrate)"
    and xt: "xtype = 0 \<or> xtype = 1"
  shows "\<exists>A. icfir_A N 1 8 4 runrate cicrate cutoff xtype xbw scale = Inr A
     \<and> (\<forall>i. (offset N + real i) / (L * to_float (real_of_int N)) = 0 \<longleftrightarrow> i = 0)
     \<and> A ! 0 = to_float (1 * local_scale 1 8 4 ft scale)
     \<and> local_scale 1 8 4 ft scale = scale / (8 * sin (pi * ft / 8) / sin (pi * ft)) ^ 4"
proof -
  have pos: "0 < ft"
    unfolding ft(1) using rates cut by (intro to_float_pos) simp
  from icfir_A_dc [OF odd tr rates cut xt]
  obtain A where A: "icfir_A N 1 8 4 runrate cicrate cutoff xtype xbw scale = Inr A"
    and dc: "A ! 0 = to_float (local_scale 1 8 4 ft scale)"
    unfolding ft(1) by blast
  from odd have "0 < N"
    by presburger
  then have "0 < to_float (real_of_int N)"
    by (intro to_float_pos) simp
  moreover have "0 < L"
    unfolding L using rates by (intro to_float_pos) simp
  ultimately have only: "(offset N + real i) / (L * to_float (real_of_int N)) = 0 \<longleftrightarrow> i = 0" for i
    by (simp add: offset_odd [OF odd(1)])
  show ?thesis
    using A dc local_scale_1_8_4 [OF pos ft(2), of scale] only by auto
qed

text \<open>
  Order 3, both rates 48000, cutoff 12000, scale 1: the magnitude at \<open>fn = 0\<close> is
  \<open>1 / (8 sin (\<pi>/32) / sin (\<pi>/4)) ^ 4\<close>.
\<close>

theorem icfir_dc_magnitude_witness:
  "\<exists>A. icfir_A 3 1 8 4 48000 48000 12000 0 0 1 = Inr A
     \<and> A ! 0 = to_float (1 / (8 * sin (pi / 32) / sin (pi / 4)) ^ 4)"
  using icfir_dc_magnitude [of 3 0 48000 48000 12000 "1 / 4" 1 0 1]
  by (auto simp: to_float_values)

text \<open>
  The claim as it is worded, magnitude 1 times the scale passed in, fails for that input:
  sample 0 has \<open>fn = 0\<close>, the local scale is below 49/64, and the \<^verbatim>\<open>float\<close> that \<open>A[0]\<close>
  holds is not 1.
\<close>

theorem icfir_dc_magnitude_counterexample:
  "case icfir_A 3 1 8 4 48000 48000 12000 0 0 1 of
     Inl e \<Rightarrow> False
   | Inr A \<Rightarrow> offset 3 / (to_float (48000 / 48000) * to_float (real_of_int 3)) = 0
              \<and> A ! 0 \<noteq> 1 * 1"
proof -
  from icfir_A_dc [of 3 0 48000 48000 12000 0 1 8 4 1]
  obtain A where A: "icfir_A 3 1 8 4 48000 48000 12000 0 0 1 = Inr A"
    and dc: "A ! 0 = to_float (local_scale 1 8 4 (1 / 4) 1)"
    by (auto simp: to_float_values)
  have "to_float (local_scale 1 8 4 (1 / 4) 1) < 1"
    by (intro to_float_below_one local_scale_quarter)
  with A dc show ?thesis
    by (simp add: offset_odd)
qed

text \<open>
  Claim C6. Whenever \<open>icfir_impulse\<close> returns an impulse response for the order \<open>N\<close>, it
  has exactly \<open>2 N\<close> entries, and it does return one when \<open>N\<close> and the number of taper
  entries are not negative. The vector is resized to \<open>2 N\<close> by the function itself;
  \<open>fir_fsamp\<close> fills it.
\<close>

theorem icfir_impulse_length:
  "(0 \<le> N \<and> 0 \<le> x_samps xbw runrate N + 1 \<longrightarrow>
      (\<exists>imp. icfir_impulse taps impulse N DD R Pairs runrate cicrate cutoff xtype xbw rtype scale wintype
                = Inr imp))
   \<and> (\<forall>imp. icfir_impulse taps impulse N DD R Pairs runrate cicrate cutoff xtype xbw rtype scale wintype
                = Inr imp \<longrightarrow> int (length imp) = 2 * N)"
  by (auto simp: icfir_impulse_def icfir_A_def fir_fsamp_def resize_def split: if_splits)

theorem icfir_impulse_length_witness:
  "\<exists>imp. icfir_impulse (\<lambda>N A rtype scale wintype k. 0) [] 4 1 8 4 48000 48000 12000 0 0 1 (1 / 256) 0
       = Inr imp \<and> length imp = 8"
  using icfir_impulse_length [of 4 0 48000 "\<lambda>N A rtype scale wintype k. 0" "[]" 1 8 4 48000 12000 0 1 "1 / 256" 0]
  by (auto simp: x_samps_def)




end
